theory Spec2Isabelle
  imports Main "HOL-Library.Product_Lexorder"
begin

section \<open>Dates: \<open>parse_macos_date\<close> of export_to_sqlite.py\<close>

text \<open>
  A Python \<open>datetime\<close> without time zone and with zero microseconds is the tuple
  (year, month, day, hour, minute, second). The sqlite3 module stores it as the text
  \<open>YYYY-MM-DD HH:MM:SS\<close>; every field is zero padded to a fixed width, so the order in
  which SQLite compares two stored values is the lexicographic order of the tuples.
\<close>

type_synonym datetime = "nat \<times> nat \<times> nat \<times> nat \<times> nat \<times> nat"

subsection \<open>Character classes of the regular expressions\<close>

definition is_digit :: "char \<Rightarrow> bool" where
  "is_digit c = (48 \<le> (of_char c :: nat) \<and> (of_char c :: nat) \<le> 57)"

definition digit_val :: "char \<Rightarrow> nat" where
  "digit_val c = of_char c - 48"

definition is_alpha :: "char \<Rightarrow> bool" where
  \<comment> \<open>the class \<open>[A-Za-z]\<close>\<close>
  "is_alpha c = ((65 \<le> (of_char c :: nat) \<and> (of_char c :: nat) \<le> 90) \<or>
                 (97 \<le> (of_char c :: nat) \<and> (of_char c :: nat) \<le> 122))"

definition is_space :: "char \<Rightarrow> bool" where
  \<comment> \<open>the class \<open>\s\<close> of a str pattern, on the code points below 256\<close>
  "is_space c = ((of_char c :: nat) \<in> {9, 10, 11, 12, 13, 28, 29, 30, 31, 32, 133, 160})"

definition lower_char :: "char \<Rightarrow> char" where
  "lower_char c = (if 65 \<le> (of_char c :: nat) \<and> (of_char c :: nat) \<le> 90
                   then char_of ((of_char c :: nat) + 32) else c)"

subsection \<open>\<open>datetime.strptime\<close> for the directives the source uses\<close>

text \<open>
  The standard library compiles a format into a regular expression (matched ignoring
  case, every run of white space of the format becoming \<open>\s+\<close>), takes the first match
  in backtracking order, and raises ValueError when there is none, when text remains
  behind the match, or when the fields are not a date and time. A matcher here returns
  every way it can match a prefix, in the order in which backtracking tries them, with
  the value read and the text that remains.
\<close>

datatype directive =
  Dir_B | Dir_b | Dir_m | Dir_d | Dir_Y | Dir_H | Dir_I | Dir_M | Dir_S | Dir_p
  | Dir_space | Dir_lit char

fun parse_format :: "string \<Rightarrow> directive list" where
  "parse_format [] = []"
| "parse_format [c] = (if is_space c then [Dir_space] else [Dir_lit c])"
| "parse_format (c # d # cs) =
     (if c = CHR ''%'' then
        (if d = CHR ''B'' then Dir_B else if d = CHR ''b'' then Dir_b
         else if d = CHR ''m'' then Dir_m else if d = CHR ''d'' then Dir_d else if d = CHR ''Y'' then Dir_Y
         else if d = CHR ''H'' then Dir_H else if d = CHR ''I'' then Dir_I
         else if d = CHR ''M'' then Dir_M else if d = CHR ''S'' then Dir_S
         else if d = CHR ''p'' then Dir_p else Dir_lit d) # parse_format cs
      else if is_space c then
        (if is_space d then parse_format (d # cs) else Dir_space # parse_format (d # cs))
      else Dir_lit c # parse_format (d # cs))"

definition two_digits :: "(nat \<Rightarrow> nat \<Rightarrow> bool) \<Rightarrow> string \<Rightarrow> (nat \<times> string) list" where
  "two_digits P s =
     (case s of
        a # b # r \<Rightarrow>
          (if is_digit a \<and> is_digit b \<and> P (digit_val a) (digit_val b)
           then [(10 * digit_val a + digit_val b, r)] else [])
      | _ \<Rightarrow> [])"

definition one_digit :: "(nat \<Rightarrow> bool) \<Rightarrow> string \<Rightarrow> (nat \<times> string) list" where
  "one_digit P s =
     (case s of
        a # r \<Rightarrow> (if is_digit a \<and> P (digit_val a) then [(digit_val a, r)] else [])
      | _ \<Rightarrow> [])"

definition four_digits :: "string \<Rightarrow> (nat \<times> string) list" where
  "four_digits s =
     (case s of
        a # b # c # d # r \<Rightarrow>
          (if is_digit a \<and> is_digit b \<and> is_digit c \<and> is_digit d
           then [(1000 * digit_val a + 100 * digit_val b + 10 * digit_val c + digit_val d, r)]
           else [])
      | _ \<Rightarrow> [])"

definition iprefix :: "string \<Rightarrow> string \<Rightarrow> bool" where
  \<comment> \<open>the pattern word, in lower case, starts the text when case is ignored\<close>
  "iprefix w s = (length w \<le> length s \<and> map lower_char (take (length w) s) = w)"

definition one_of_words :: "(string \<times> nat) list \<Rightarrow> string \<Rightarrow> (nat \<times> string) list" where
  "one_of_words ws s =
     concat (map (\<lambda>(w, v). if iprefix w s then [(v, drop (length w) s)] else []) ws)"

definition month_names :: "(string \<times> nat) list" where
  \<comment> \<open>the alternatives of \<open>%B\<close>: the English names, longest first\<close>
  "month_names =
     [(''september'', 9), (''february'', 2), (''november'', 11), (''december'', 12),
      (''january'', 1), (''october'', 10), (''august'', 8), (''march'', 3),
      (''april'', 4), (''june'', 6), (''july'', 7), (''may'', 5)]"

definition month_abbrs :: "(string \<times> nat) list" where
  "month_abbrs =
     [(''jan'', 1), (''feb'', 2), (''mar'', 3), (''apr'', 4), (''may'', 5), (''jun'', 6),
      (''jul'', 7), (''aug'', 8), (''sep'', 9), (''oct'', 10), (''nov'', 11), (''dec'', 12)]"

definition spaces :: "string \<Rightarrow> (nat \<times> string) list" where
  \<comment> \<open>\<open>\s+\<close> is greedy: the longest run first, then the shorter ones\<close>
  "spaces s = map (\<lambda>k. (0, drop k s)) (rev [1 ..< Suc (length (takeWhile is_space s))])"

fun match_directive :: "directive \<Rightarrow> string \<Rightarrow> (nat \<times> string) list" where
  "match_directive Dir_B s = one_of_words month_names s"
| "match_directive Dir_b s = one_of_words month_abbrs s"
| "match_directive Dir_m s =
     two_digits (\<lambda>a b. a = 1 \<and> b \<le> 2) s @ two_digits (\<lambda>a b. a = 0 \<and> 1 \<le> b) s @
     one_digit (\<lambda>a. 1 \<le> a) s"
| "match_directive Dir_d s =
     two_digits (\<lambda>a b. a = 3 \<and> b \<le> 1) s @ two_digits (\<lambda>a b. 1 \<le> a \<and> a \<le> 2) s @
     two_digits (\<lambda>a b. a = 0 \<and> 1 \<le> b) s @ one_digit (\<lambda>a. 1 \<le> a) s @
     (case s of c # r \<Rightarrow> (if c = CHR '' '' then one_digit (\<lambda>a. 1 \<le> a) r else []) | [] \<Rightarrow> [])"
| "match_directive Dir_Y s = four_digits s"
| "match_directive Dir_H s =
     two_digits (\<lambda>a b. a = 2 \<and> b \<le> 3) s @ two_digits (\<lambda>a b. a \<le> 1) s @
     one_digit (\<lambda>a. True) s"
| "match_directive Dir_I s =
     two_digits (\<lambda>a b. a = 1 \<and> b \<le> 2) s @ two_digits (\<lambda>a b. a = 0 \<and> 1 \<le> b) s @
     one_digit (\<lambda>a. 1 \<le> a) s"
| "match_directive Dir_M s = two_digits (\<lambda>a b. a \<le> 5) s @ one_digit (\<lambda>a. True) s"
| "match_directive Dir_S s =
     two_digits (\<lambda>a b. a = 6 \<and> b \<le> 1) s @ two_digits (\<lambda>a b. a \<le> 5) s @
     one_digit (\<lambda>a. True) s"
| "match_directive Dir_p s = one_of_words [(''am'', 0), (''pm'', 1)] s"
| "match_directive Dir_space s = spaces s"
| "match_directive (Dir_lit c) s =
     (case s of x # r \<Rightarrow> (if lower_char x = lower_char c then [(0, r)] else []) | [] \<Rightarrow> [])"

fun match_format :: "directive list \<Rightarrow> string \<Rightarrow> ((directive \<times> nat) list \<times> string) list" where
  "match_format [] s = [([], s)]"
| "match_format (d # ds) s =
     concat (map (\<lambda>(v, r). map (\<lambda>(caps, r'). ((d, v) # caps, r')) (match_format ds r))
                 (match_directive d s))"

definition is_leap :: "nat \<Rightarrow> bool" where
  "is_leap y = (y mod 4 = 0 \<and> (y mod 100 \<noteq> 0 \<or> y mod 400 = 0))"

definition days_in_month :: "nat \<Rightarrow> nat \<Rightarrow> nat" where
  "days_in_month y m =
     (if m = 2 then (if is_leap y then 29 else 28)
      else if m \<in> {4, 6, 9, 11} then 30 else 31)"

definition field :: "(directive \<times> nat) list \<Rightarrow> directive \<Rightarrow> nat \<Rightarrow> nat" where
  "field caps d dflt = (case map_of caps d of None \<Rightarrow> dflt | Some v \<Rightarrow> v)"

definition hour_of :: "(directive \<times> nat) list \<Rightarrow> nat" where
  \<comment> \<open>\<open>%H\<close> is the hour; \<open>%I\<close> is read with \<open>%p\<close> (absent counts as AM)\<close>
  "hour_of caps =
     (case map_of caps Dir_I of
        None \<Rightarrow> field caps Dir_H 0
      | Some h \<Rightarrow>
          (if field caps Dir_p 0 = 0 then (if h = 12 then 0 else h)
           else (if h \<noteq> 12 then h + 12 else h)))"

definition strptime :: "string \<Rightarrow> string \<Rightarrow> datetime option" where
  \<comment> \<open>\<open>None\<close> is ValueError\<close>
  "strptime data_string fmt =
     (case match_format (parse_format fmt) data_string of
        [] \<Rightarrow> None
      | (caps, remaining) # _ \<Rightarrow>
          (if remaining \<noteq> [] then None
           else
             (let year = field caps Dir_Y 1900;
                  month = field caps Dir_B (field caps Dir_b (field caps Dir_m 1));
                  day = field caps Dir_d 1;
                  second = field caps Dir_S 0
              in if year < 1 \<or> days_in_month year month < day \<or> 59 < second then None
                 else Some (year, month, day, hour_of caps, field caps Dir_M 0, second))))"

definition date_of :: "datetime \<Rightarrow> nat \<times> nat \<times> nat" where
  "date_of dt = (case dt of (y, mo, d, h, mi, s) \<Rightarrow> (y, mo, d))"

definition time_of :: "datetime \<Rightarrow> nat \<times> nat \<times> nat" where
  "time_of dt = (case dt of (y, mo, d, h, mi, s) \<Rightarrow> (h, mi, s))"

definition combine :: "nat \<times> nat \<times> nat \<Rightarrow> nat \<times> nat \<times> nat \<Rightarrow> datetime" where
  "combine d t = (case d of (y, mo, dd) \<Rightarrow> (case t of (h, mi, s) \<Rightarrow> (y, mo, dd, h, mi, s)))"

subsection \<open>The parser of the source\<close>

definition strip_weekday :: "string \<Rightarrow> string" where
  \<comment> \<open>\<open>re.sub(r'^[A-Za-z]+,\s+', '', date_str)\<close>\<close>
  "strip_weekday s =
     (if takeWhile is_alpha s = [] then s
      else (case dropWhile is_alpha s of
              c # r \<Rightarrow>
                (if c = CHR '','' \<and> takeWhile is_space r \<noteq> [] then dropWhile is_space r else s)
            | [] \<Rightarrow> s))"

fun split_at :: "string \<Rightarrow> string \<Rightarrow> string list" where
  \<comment> \<open>\<open>str.split(' at ')\<close>, the first argument holding the current part reversed\<close>
  "split_at acc [] = [rev acc]"
| "split_at acc (c # cs) =
     (if take 4 (c # cs) = '' at '' then rev acc # split_at [] (drop 3 cs)
      else split_at (c # acc) cs)"

fun first_success :: "('a \<Rightarrow> 'b option) \<Rightarrow> 'a list \<Rightarrow> 'b option" where
  \<comment> \<open>a loop over formats that leaves at the first one that does not raise ValueError\<close>
  "first_success f [] = None"
| "first_success f (x # xs) = (case f x of Some y \<Rightarrow> Some y | None \<Rightarrow> first_success f xs)"

datatype py_exception = ValueError_unpack

definition fallback_formats :: "string \<Rightarrow> datetime option" where
  "fallback_formats date_str =
     first_success (strptime date_str) [''%Y-%m-%d %H:%M:%S'', ''%Y-%m-%d'']"

definition parse_macos_date_body :: "string \<Rightarrow> py_exception + datetime option" where
  \<comment> \<open>the body of the \<open>try\<close>; \<open>Inl\<close> is an exception that leaves it\<close>
  "parse_macos_date_body date_str =
     (let date_str_clean = strip_weekday date_str;
          parts = split_at [] date_str_clean
      in if 2 \<le> length parts then
           (case parts of
              [date_part, time_part] \<Rightarrow>
                (case first_success (strptime date_part) [''%B %d, %Y'', ''%b %d, %Y''] of
                   None \<Rightarrow> Inr None
                 | Some parsed_date \<Rightarrow>
                     (case first_success (strptime time_part) [''%H:%M:%S'', ''%I:%M:%S %p''] of
                        Some time_obj \<Rightarrow> Inr (Some (combine (date_of parsed_date) (time_of time_obj)))
                      | None \<Rightarrow> Inr (fallback_formats date_str)))
            | _ \<Rightarrow> Inl ValueError_unpack)
         else Inr (fallback_formats date_str))"

definition parse_macos_date :: "string \<Rightarrow> datetime option" where
  "parse_macos_date date_str =
     (if date_str = [] then None
      else (case parse_macos_date_body date_str of
              Inl e \<Rightarrow> None
            | Inr r \<Rightarrow> r))"

section \<open>The relational store\<close>

text \<open>
  One record per table of \<open>create_schema\<close>, holding the columns the import writes; a
  table is the list of its rows in insertion order (the table \<open>notes\<close> is the field
  \<open>notes_tbl\<close>, the plain name being reserved). The columns SQLite fills by itself
  (the AUTOINCREMENT keys and the CURRENT_TIMESTAMP defaults) are left out. A nullable
  column is an \<open>option\<close>, \<open>None\<close> being NULL.
\<close>

record note_row =
  n_note_id :: string
  n_original_index :: int
  n_title :: string
  n_content :: string
  n_content_cleaned :: string
  n_plain_text :: string
  n_folder :: string
  n_account :: string
  n_coredata_id :: "string option"
  n_created_raw :: string
  n_created_datetime :: "datetime option"
  n_modified_raw :: string
  n_modified_datetime :: "datetime option"
  n_status :: string
  n_processed :: int
  n_primary_category :: "string option"
  n_content_length :: nat

record link_row =
  l_note_id :: string
  l_url :: string
  l_link_type :: "string option"

record image_row =
  i_note_id :: string
  i_filename :: string
  i_relative_path :: string
  i_image_format :: string
  i_size_bytes :: int
  i_extraction_order :: nat

record analysis_row =
  a_note_id :: string
  a_summary :: string
  a_plain_text_sample :: string

record task_row =
  t_note_id :: string
  t_task_text :: string

record idea_row =
  d_note_id :: string
  d_idea_text :: string

record project_row =
  p_note_id :: string
  p_project_name :: string

record category_row =
  c_note_id :: string
  c_category :: string

record database =
  foreign_keys :: bool
  notes_tbl :: "note_row list"
  extracted_links :: "link_row list"
  extracted_images :: "image_row list"
  analysis :: "analysis_row list"
  extracted_tasks :: "task_row list"
  extracted_ideas :: "idea_row list"
  extracted_projects :: "project_row list"
  note_categories :: "category_row list"

definition new_database :: database where
  \<comment> \<open>a database file that does not exist yet, after \<open>create_schema\<close>\<close>
  "new_database =
     \<lparr>foreign_keys = False, notes_tbl = [], extracted_links = [], extracted_images = [],
      analysis = [], extracted_tasks = [], extracted_ideas = [], extracted_projects = [],
      note_categories = []\<rparr>"

subsection \<open>The statements the import executes\<close>

text \<open>
  What \<open>cursor.execute\<close> raises: the two integrity errors of SQLite that these tables
  can produce, and the OverflowError of the sqlite3 module when a bound Python integer
  does not fit the signed 64-bit INTEGER of SQLite. Parameters are bound before the
  statement runs, so the overflow comes before any constraint is looked at.
\<close>

datatype sql_error = UniqueFailed string | ForeignKeyFailed | IntegerOverflow

fun error_text :: "sql_error \<Rightarrow> string" where
  "error_text (UniqueFailed cols) = ''UNIQUE constraint failed: '' @ cols"
| "error_text ForeignKeyFailed = ''FOREIGN KEY constraint failed''"
| "error_text IntegerOverflow = ''Python int too large to convert to SQLite INTEGER''"

definition in_int64 :: "int \<Rightarrow> bool" where
  "in_int64 i = (- (2 ^ 63) \<le> i \<and> i < 2 ^ 63)"

definition parent_exists :: "database \<Rightarrow> string \<Rightarrow> bool" where
  "parent_exists db nid = (nid \<in> set (map n_note_id (notes_tbl db)))"

definition fk_allows :: "database \<Rightarrow> string \<Rightarrow> bool" where
  \<comment> \<open>the foreign key of a child row is checked only while enforcement is on\<close>
  "fk_allows db nid = (\<not> foreign_keys db \<or> parent_exists db nid)"

definition insert_note :: "database \<Rightarrow> note_row \<Rightarrow> sql_error + database" where
  \<comment> \<open>\<open>INSERT INTO notes\<close>: \<open>coredata_id\<close> is UNIQUE (NULLs never collide) and
      \<open>note_id\<close> is the primary key; SQLite reports the former first\<close>
  "insert_note db row =
     (if \<not> in_int64 (n_original_index row) then Inl IntegerOverflow
      else if n_coredata_id row \<noteq> None \<and> n_coredata_id row \<in> set (map n_coredata_id (notes_tbl db))
      then Inl (UniqueFailed ''notes.coredata_id'')
      else if n_note_id row \<in> set (map n_note_id (notes_tbl db))
      then Inl (UniqueFailed ''notes.note_id'')
      else Inr (db\<lparr>notes_tbl := notes_tbl db @ [row]\<rparr>))"

definition insert_or_ignore :: "('r \<Rightarrow> 'k) \<Rightarrow> bool \<Rightarrow> 'r \<Rightarrow> 'r list \<Rightarrow> sql_error + 'r list" where
  \<comment> \<open>\<open>INSERT OR IGNORE\<close> into a child table with a UNIQUE key: a row whose key is
      taken is dropped without an error\<close>
  "insert_or_ignore key parent_ok row tbl =
     (if key row \<in> set (map key tbl) then Inr tbl
      else if \<not> parent_ok then Inl ForeignKeyFailed
      else Inr (tbl @ [row]))"

definition insert_row :: "bool \<Rightarrow> 'r \<Rightarrow> 'r list \<Rightarrow> sql_error + 'r list" where
  \<comment> \<open>\<open>INSERT\<close> into a child table without a UNIQUE key\<close>
  "insert_row parent_ok row tbl =
     (if \<not> parent_ok then Inl ForeignKeyFailed else Inr (tbl @ [row]))"

definition link_key :: "link_row \<Rightarrow> string \<times> string" where
  "link_key r = (l_note_id r, l_url r)"

definition image_key :: "image_row \<Rightarrow> string \<times> string" where
  "image_key r = (i_note_id r, i_filename r)"

definition category_key :: "category_row \<Rightarrow> string \<times> string" where
  "category_key r = (c_note_id r, c_category r)"

definition insert_link :: "database \<Rightarrow> link_row \<Rightarrow> sql_error + database" where
  "insert_link db row =
     (case insert_or_ignore link_key (fk_allows db (l_note_id row)) row (extracted_links db) of
        Inl e \<Rightarrow> Inl e
      | Inr t \<Rightarrow> Inr (db\<lparr>extracted_links := t\<rparr>))"

definition insert_image :: "database \<Rightarrow> image_row \<Rightarrow> sql_error + database" where
  "insert_image db row =
     (if \<not> in_int64 (i_size_bytes row) then Inl IntegerOverflow
      else
        (case insert_or_ignore image_key (fk_allows db (i_note_id row)) row (extracted_images db) of
           Inl e \<Rightarrow> Inl e
         | Inr t \<Rightarrow> Inr (db\<lparr>extracted_images := t\<rparr>)))"

definition insert_category :: "database \<Rightarrow> category_row \<Rightarrow> sql_error + database" where
  "insert_category db row =
     (case insert_or_ignore category_key (fk_allows db (c_note_id row)) row (note_categories db) of
        Inl e \<Rightarrow> Inl e
      | Inr t \<Rightarrow> Inr (db\<lparr>note_categories := t\<rparr>))"

definition insert_analysis :: "database \<Rightarrow> analysis_row \<Rightarrow> sql_error + database" where
  "insert_analysis db row =
     (case insert_or_ignore a_note_id (fk_allows db (a_note_id row)) row (analysis db) of
        Inl e \<Rightarrow> Inl e
      | Inr t \<Rightarrow> Inr (db\<lparr>analysis := t\<rparr>))"

definition insert_task :: "database \<Rightarrow> task_row \<Rightarrow> sql_error + database" where
  "insert_task db row =
     (case insert_row (fk_allows db (t_note_id row)) row (extracted_tasks db) of
        Inl e \<Rightarrow> Inl e
      | Inr t \<Rightarrow> Inr (db\<lparr>extracted_tasks := t\<rparr>))"

definition insert_idea :: "database \<Rightarrow> idea_row \<Rightarrow> sql_error + database" where
  "insert_idea db row =
     (case insert_row (fk_allows db (d_note_id row)) row (extracted_ideas db) of
        Inl e \<Rightarrow> Inl e
      | Inr t \<Rightarrow> Inr (db\<lparr>extracted_ideas := t\<rparr>))"

definition insert_project :: "database \<Rightarrow> project_row \<Rightarrow> sql_error + database" where
  "insert_project db row =
     (case insert_row (fk_allows db (p_note_id row)) row (extracted_projects db) of
        Inl e \<Rightarrow> Inl e
      | Inr t \<Rightarrow> Inr (db\<lparr>extracted_projects := t\<rparr>))"

subsection \<open>Deleting a note under the foreign keys of the schema\<close>

datatype fk_action = Cascade | NoAction

datatype child_table =
  ExtractedLinks | ExtractedImages | Analysis | ExtractedTasks | ExtractedIdeas
  | ExtractedProjects | NoteCategories

fun on_delete :: "child_table \<Rightarrow> fk_action" where
  \<comment> \<open>the \<open>FOREIGN KEY (note_id) REFERENCES notes(note_id)\<close> clause of each table\<close>
  "on_delete ExtractedLinks = Cascade"
| "on_delete ExtractedImages = Cascade"
| "on_delete Analysis = Cascade"
| "on_delete ExtractedTasks = Cascade"
| "on_delete ExtractedIdeas = Cascade"
| "on_delete ExtractedProjects = Cascade"
| "on_delete NoteCategories = Cascade"

definition delete_children :: "fk_action \<Rightarrow> ('r \<Rightarrow> string) \<Rightarrow> string \<Rightarrow> 'r list \<Rightarrow> sql_error + 'r list" where
  "delete_children action ref nid tbl =
     (case action of
        Cascade \<Rightarrow> Inr (filter (\<lambda>r. ref r \<noteq> nid) tbl)
      | NoAction \<Rightarrow> (if nid \<in> set (map ref tbl) then Inl ForeignKeyFailed else Inr tbl))"

definition delete_note :: "database \<Rightarrow> string \<Rightarrow> sql_error + database" where
  \<comment> \<open>\<open>DELETE FROM notes WHERE note_id = ?\<close>; with enforcement off only the note row goes\<close>
  "delete_note db nid =
     (let db0 = db\<lparr>notes_tbl := filter (\<lambda>r. n_note_id r \<noteq> nid) (notes_tbl db)\<rparr>
      in if \<not> foreign_keys db \<or> \<not> parent_exists db nid then Inr db0
         else
          (case delete_children (on_delete ExtractedLinks) l_note_id nid (extracted_links db) of
             Inl e \<Rightarrow> Inl e | Inr links \<Rightarrow>
          (case delete_children (on_delete ExtractedImages) i_note_id nid (extracted_images db) of
             Inl e \<Rightarrow> Inl e | Inr images \<Rightarrow>
          (case delete_children (on_delete Analysis) a_note_id nid (analysis db) of
             Inl e \<Rightarrow> Inl e | Inr analyses \<Rightarrow>
          (case delete_children (on_delete ExtractedTasks) t_note_id nid (extracted_tasks db) of
             Inl e \<Rightarrow> Inl e | Inr tasks \<Rightarrow>
          (case delete_children (on_delete ExtractedIdeas) d_note_id nid (extracted_ideas db) of
             Inl e \<Rightarrow> Inl e | Inr ideas \<Rightarrow>
          (case delete_children (on_delete ExtractedProjects) p_note_id nid (extracted_projects db) of
             Inl e \<Rightarrow> Inl e | Inr projects \<Rightarrow>
          (case delete_children (on_delete NoteCategories) c_note_id nid (note_categories db) of
             Inl e \<Rightarrow> Inl e | Inr categories \<Rightarrow>
             Inr (db0\<lparr>extracted_links := links, extracted_images := images,
                      analysis := analyses, extracted_tasks := tasks,
                      extracted_ideas := ideas, extracted_projects := projects,
                      note_categories := categories\<rparr>)))))))))"

definition fk_consistent :: "database \<Rightarrow> bool" where
  \<comment> \<open>no child row references a note that is not stored\<close>
  "fk_consistent db =
     ((\<forall>r \<in> set (extracted_links db). parent_exists db (l_note_id r)) \<and>
      (\<forall>r \<in> set (extracted_images db). parent_exists db (i_note_id r)) \<and>
      (\<forall>r \<in> set (analysis db). parent_exists db (a_note_id r)) \<and>
      (\<forall>r \<in> set (extracted_tasks db). parent_exists db (t_note_id r)) \<and>
      (\<forall>r \<in> set (extracted_ideas db). parent_exists db (d_note_id r)) \<and>
      (\<forall>r \<in> set (extracted_projects db). parent_exists db (p_note_id r)) \<and>
      (\<forall>r \<in> set (note_categories db). parent_exists db (c_note_id r)))"

section \<open>The note record read from a JSON file\<close>

text \<open>
  The input follows the record shape the pipeline writes: a key is absent (\<open>None\<close>)
  or holds a value of its type. An image is a file name or an object; a task, idea or
  project is a string or an object, of which only the value under the expected key
  (\<open>text\<close>, or \<open>name\<close> for a project) is read. The typed links keep the order of the
  keys of their object.
\<close>

record image_dict =
  im_filename :: "string option"
  im_path :: "string option"
  im_format :: "string option"
  im_size :: "int option"

datatype image_entry = ImageStr string | ImageDict image_dict

datatype entry = EntryStr string | EntryDict "string option"

record extracted_data =
  ed_links :: "string list option"
  ed_images :: "image_entry list option"

record analysis_data =
  an_summary :: "string option"
  an_plain_text :: "string option"
  an_tasks :: "entry list option"
  an_ideas :: "entry list option"
  an_projects :: "entry list option"
  an_links_categorized :: "(string \<times> string list) list option"
  an_other_keys :: bool

record note_data =
  nd_note_id :: "string option"
  nd_original_index :: "int option"
  nd_title :: "string option"
  nd_content :: "string option"
  nd_content_cleaned :: "string option"
  nd_folder :: "string option"
  nd_account :: "string option"
  nd_id :: "string option"
  nd_created :: "string option"
  nd_modified :: "string option"
  nd_status :: "string option"
  nd_processed :: "bool option"
  nd_primary_category :: "string option"
  nd_extracted_data :: "extracted_data option"
  nd_categories :: "string list option"
  nd_analysis :: "analysis_data option"

definition get_or :: "'a option \<Rightarrow> 'a \<Rightarrow> 'a" where
  \<comment> \<open>\<open>dict.get(key, default)\<close>, the option being the value under the key\<close>
  "get_or v dflt = (case v of None \<Rightarrow> dflt | Some x \<Rightarrow> x)"

definition empty_extracted_data :: extracted_data where
  "empty_extracted_data = \<lparr>ed_links = None, ed_images = None\<rparr>"

definition empty_analysis :: analysis_data where
  "empty_analysis =
     \<lparr>an_summary = None, an_plain_text = None, an_tasks = None, an_ideas = None,
      an_projects = None, an_links_categorized = None, an_other_keys = False\<rparr>"

definition truthy :: "analysis_data \<Rightarrow> bool" where
  \<comment> \<open>a dict is true when it has a key\<close>
  "truthy a =
     (an_summary a \<noteq> None \<or> an_plain_text a \<noteq> None \<or> an_tasks a \<noteq> None \<or>
      an_ideas a \<noteq> None \<or> an_projects a \<noteq> None \<or> an_links_categorized a \<noteq> None \<or>
      an_other_keys a)"

section \<open>The import: class \<open>NotesDatabase\<close>\<close>

record import_stats =
  notes_imported :: nat
  links_imported :: nat
  images_imported :: nat
  categories_imported :: nat
  tasks_imported :: nat
  ideas_imported :: nat
  projects_imported :: nat
  errors :: "string list"

record NotesDatabase =
  conn :: database
  stats :: import_stats

definition init_stats :: import_stats where
  "init_stats =
     \<lparr>notes_imported = 0, links_imported = 0, images_imported = 0, categories_imported = 0,
      tasks_imported = 0, ideas_imported = 0, projects_imported = 0, errors = []\<rparr>"

definition connect :: "database \<Rightarrow> NotesDatabase" where
  \<comment> \<open>\<open>__init__\<close> and \<open>connect\<close> on a database file: \<open>PRAGMA foreign_keys = ON\<close>\<close>
  "connect db = \<lparr>conn = db\<lparr>foreign_keys := True\<rparr>, stats = init_stats\<rparr>"

definition add_error :: "string \<Rightarrow> NotesDatabase \<Rightarrow> NotesDatabase" where
  "add_error msg s = s\<lparr>stats := (stats s)\<lparr>errors := errors (stats s) @ [msg]\<rparr>\<rparr>"

definition html_to_text :: "(string \<Rightarrow> string) \<Rightarrow> string \<Rightarrow> string" where
  \<comment> \<open>the first argument is what feeding the markup to the library's HTML parser and
      joining the collected text gives (or the tag stripping when that raises)\<close>
  "html_to_text feed html_content = (if html_content = [] then [] else feed html_content)"

fun import_links :: "string \<Rightarrow> string list \<Rightarrow> NotesDatabase \<Rightarrow> NotesDatabase" where
  "import_links note_id [] s = s"
| "import_links note_id (link # links) s =
     import_links note_id links
       (case insert_link (conn s) \<lparr>l_note_id = note_id, l_url = link, l_link_type = None\<rparr> of
          Inr db \<Rightarrow> s\<lparr>conn := db, stats := (stats s)\<lparr>links_imported := links_imported (stats s) + 1\<rparr>\<rparr>
        | Inl e \<Rightarrow> add_error (''Link import error for '' @ note_id @ '': '' @ error_text e) s)"

fun import_typed_links :: "string \<Rightarrow> string \<Rightarrow> string list \<Rightarrow> NotesDatabase \<Rightarrow> NotesDatabase" where
  "import_typed_links note_id link_type [] s = s"
| "import_typed_links note_id link_type (link # link_list) s =
     import_typed_links note_id link_type link_list
       (case insert_link (conn s) \<lparr>l_note_id = note_id, l_url = link, l_link_type = Some link_type\<rparr> of
          Inr db \<Rightarrow> s\<lparr>conn := db, stats := (stats s)\<lparr>links_imported := links_imported (stats s) + 1\<rparr>\<rparr>
        | Inl e \<Rightarrow> s)"

fun import_links_categorized :: "string \<Rightarrow> (string \<times> string list) list \<Rightarrow> NotesDatabase \<Rightarrow> NotesDatabase" where
  "import_links_categorized note_id [] s = s"
| "import_links_categorized note_id ((link_type, link_list) # items) s =
     import_links_categorized note_id items (import_typed_links note_id link_type link_list s)"

fun image_values :: "string \<Rightarrow> nat \<Rightarrow> image_entry \<Rightarrow> image_row" where
  "image_values note_id idx (ImageDict img) =
     (let filename = get_or (im_filename img) []
      in \<lparr>i_note_id = note_id, i_filename = filename,
          i_relative_path = get_or (im_path img) (''images/'' @ filename),
          i_image_format = get_or (im_format img) [],
          i_size_bytes = get_or (im_size img) 0,
          i_extraction_order = idx\<rparr>)"
| "image_values note_id idx (ImageStr filename) =
     \<lparr>i_note_id = note_id, i_filename = filename,
      i_relative_path = ''images/'' @ filename,
      i_image_format = [], i_size_bytes = 0, i_extraction_order = idx\<rparr>"

fun import_images :: "string \<Rightarrow> nat \<Rightarrow> image_entry list \<Rightarrow> NotesDatabase \<Rightarrow> NotesDatabase" where
  \<comment> \<open>\<open>for idx, image in enumerate(images, 1)\<close>, the number being the current index\<close>
  "import_images note_id idx [] s = s"
| "import_images note_id idx (img # images) s =
     import_images note_id (idx + 1) images
       (case insert_image (conn s) (image_values note_id idx img) of
          Inr db \<Rightarrow> s\<lparr>conn := db, stats := (stats s)\<lparr>images_imported := images_imported (stats s) + 1\<rparr>\<rparr>
        | Inl e \<Rightarrow> add_error (''Image import error for '' @ note_id @ '': '' @ error_text e) s)"

fun import_categories :: "string \<Rightarrow> string list \<Rightarrow> NotesDatabase \<Rightarrow> NotesDatabase" where
  "import_categories note_id [] s = s"
| "import_categories note_id (category # categories) s =
     import_categories note_id categories
       (case insert_category (conn s) \<lparr>c_note_id = note_id, c_category = category\<rparr> of
          Inr db \<Rightarrow> s\<lparr>conn := db, stats := (stats s)\<lparr>categories_imported := categories_imported (stats s) + 1\<rparr>\<rparr>
        | Inl e \<Rightarrow> s)"

fun entry_text :: "entry \<Rightarrow> string" where
  \<comment> \<open>\<open>task if isinstance(task, str) else task.get('text', '')\<close>\<close>
  "entry_text (EntryStr t) = t"
| "entry_text (EntryDict v) = get_or v []"

fun import_tasks :: "string \<Rightarrow> entry list \<Rightarrow> NotesDatabase \<Rightarrow> NotesDatabase" where
  "import_tasks note_id [] s = s"
| "import_tasks note_id (task # tasks) s =
     import_tasks note_id tasks
       (case insert_task (conn s) \<lparr>t_note_id = note_id, t_task_text = entry_text task\<rparr> of
          Inr db \<Rightarrow> s\<lparr>conn := db, stats := (stats s)\<lparr>tasks_imported := tasks_imported (stats s) + 1\<rparr>\<rparr>
        | Inl e \<Rightarrow> add_error (''Task import error for '' @ note_id @ '': '' @ error_text e) s)"

fun import_ideas :: "string \<Rightarrow> entry list \<Rightarrow> NotesDatabase \<Rightarrow> NotesDatabase" where
  "import_ideas note_id [] s = s"
| "import_ideas note_id (idea # ideas) s =
     import_ideas note_id ideas
       (case insert_idea (conn s) \<lparr>d_note_id = note_id, d_idea_text = entry_text idea\<rparr> of
          Inr db \<Rightarrow> s\<lparr>conn := db, stats := (stats s)\<lparr>ideas_imported := ideas_imported (stats s) + 1\<rparr>\<rparr>
        | Inl e \<Rightarrow> add_error (''Idea import error for '' @ note_id @ '': '' @ error_text e) s)"

fun import_projects :: "string \<Rightarrow> entry list \<Rightarrow> NotesDatabase \<Rightarrow> NotesDatabase" where
  "import_projects note_id [] s = s"
| "import_projects note_id (project # projects) s =
     import_projects note_id projects
       (case insert_project (conn s) \<lparr>p_note_id = note_id, p_project_name = entry_text project\<rparr> of
          Inr db \<Rightarrow> s\<lparr>conn := db, stats := (stats s)\<lparr>projects_imported := projects_imported (stats s) + 1\<rparr>\<rparr>
        | Inl e \<Rightarrow> add_error (''Project import error for '' @ note_id @ '': '' @ error_text e) s)"

definition import_analysis :: "string \<Rightarrow> analysis_data \<Rightarrow> NotesDatabase \<Rightarrow> NotesDatabase" where
  \<comment> \<open>the block under \<open>if analysis:\<close>\<close>
  "import_analysis note_id a s =
     (let summary = get_or (an_summary a) [];
          plain_text_sample = take 1000 (get_or (an_plain_text a) []);
          s1 = (if summary \<noteq> [] \<or> plain_text_sample \<noteq> [] then
                  (case insert_analysis (conn s)
                          \<lparr>a_note_id = note_id, a_summary = summary,
                           a_plain_text_sample = plain_text_sample\<rparr> of
                     Inr db \<Rightarrow> s\<lparr>conn := db\<rparr>
                   | Inl e \<Rightarrow> add_error (''Analysis import error for '' @ note_id @ '': '' @ error_text e) s)
                else s);
          s2 = import_tasks note_id (get_or (an_tasks a) []) s1;
          s3 = import_ideas note_id (get_or (an_ideas a) []) s2
      in import_projects note_id (get_or (an_projects a) []) s3)"

definition note_values :: "(string \<Rightarrow> string) \<Rightarrow> string \<Rightarrow> note_data \<Rightarrow> note_row" where
  \<comment> \<open>the tuple bound to \<open>INSERT INTO notes\<close>\<close>
  "note_values feed note_id nd =
     (let created_datetime = parse_macos_date (get_or (nd_created nd) []);
          modified_datetime = parse_macos_date (get_or (nd_modified nd) []);
          content = get_or (nd_content nd) [];
          plain_text = html_to_text feed content
      in \<lparr>n_note_id = note_id,
          n_original_index = get_or (nd_original_index nd) 0,
          n_title = get_or (nd_title nd) ''Untitled'',
          n_content = content,
          n_content_cleaned = get_or (nd_content_cleaned nd) content,
          n_plain_text = plain_text,
          n_folder = get_or (nd_folder nd) ''Notes'',
          n_account = get_or (nd_account nd) ''Unknown'',
          n_coredata_id = Some (get_or (nd_id nd) []),
          n_created_raw = get_or (nd_created nd) [],
          n_created_datetime = created_datetime,
          n_modified_raw = get_or (nd_modified nd) [],
          n_modified_datetime = modified_datetime,
          n_status = get_or (nd_status nd) ''pending'',
          n_processed = (if get_or (nd_processed nd) False then 1 else 0),
          n_primary_category = nd_primary_category nd,
          n_content_length = length plain_text\<rparr>)"

definition import_children :: "string \<Rightarrow> note_data \<Rightarrow> NotesDatabase \<Rightarrow> NotesDatabase" where
  \<comment> \<open>what \<open>import_note\<close> does once the note row is stored\<close>
  "import_children note_id nd s =
     (let extracted = get_or (nd_extracted_data nd) empty_extracted_data;
          links = get_or (ed_links extracted) [];
          analysis = get_or (nd_analysis nd) empty_analysis;
          links_categorized = get_or (an_links_categorized analysis) [];
          s1 = import_links note_id links s;
          s2 = import_links_categorized note_id links_categorized s1;
          s3 = import_images note_id 1 (get_or (ed_images extracted) []) s2;
          s4 = import_categories note_id (get_or (nd_categories nd) []) s3
      in if truthy analysis then import_analysis note_id analysis s4 else s4)"

definition import_note :: "(string \<Rightarrow> string) \<Rightarrow> NotesDatabase \<Rightarrow> note_data \<Rightarrow> NotesDatabase" where
  "import_note feed s nd =
     (case nd_note_id nd of
        None \<Rightarrow> add_error ''Missing note_id in note data'' s
      | Some note_id \<Rightarrow>
          (if note_id = [] then add_error ''Missing note_id in note data'' s
           else
             (case insert_note (conn s) (note_values feed note_id nd) of
                Inl e \<Rightarrow> add_error (''Failed to import note '' @ note_id @ '': '' @ error_text e) s
              | Inr db \<Rightarrow>
                  import_children note_id nd
                    (s\<lparr>conn := db,
                       stats := (stats s)\<lparr>notes_imported := notes_imported (stats s) + 1\<rparr>\<rparr>))))"

definition import_all :: "(string \<Rightarrow> string) \<Rightarrow> NotesDatabase \<Rightarrow> note_data list \<Rightarrow> NotesDatabase" where
  \<comment> \<open>the loop of \<open>main\<close> over the records that could be read\<close>
  "import_all feed s nds = foldl (import_note feed) s nds"

section \<open>The date ranges of \<open>generate_statistics\<close>\<close>

fun sql_min :: "'a::linorder option list \<Rightarrow> 'a option" where
  \<comment> \<open>the aggregate \<open>MIN\<close>: NULLs are skipped, no value gives NULL\<close>
  "sql_min [] = None"
| "sql_min (None # vs) = sql_min vs"
| "sql_min (Some v # vs) = (case sql_min vs of None \<Rightarrow> Some v | Some m \<Rightarrow> Some (min v m))"

fun sql_max :: "'a::linorder option list \<Rightarrow> 'a option" where
  "sql_max [] = None"
| "sql_max (None # vs) = sql_max vs"
| "sql_max (Some v # vs) = (case sql_max vs of None \<Rightarrow> Some v | Some m \<Rightarrow> Some (max v m))"

record date_ranges =
  earliest_created :: "datetime option"
  latest_created :: "datetime option"
  earliest_modified :: "datetime option"
  latest_modified :: "datetime option"

definition generate_date_ranges :: "database \<Rightarrow> date_ranges" where
  \<comment> \<open>the query under \<open># Date ranges\<close>, with its one \<open>WHERE created_datetime IS NOT NULL\<close>\<close>
  "generate_date_ranges db =
     (let rows = filter (\<lambda>r. n_created_datetime r \<noteq> None) (notes_tbl db)
      in \<lparr>earliest_created = sql_min (map n_created_datetime rows),
          latest_created = sql_max (map n_created_datetime rows),
          earliest_modified = sql_min (map n_modified_datetime rows),
          latest_modified = sql_max (map n_modified_datetime rows)\<rparr>)"

definition parsed :: "'a option list \<Rightarrow> 'a list" where
  \<comment> \<open>the values of a column that are not NULL\<close>
  "parsed vs = map the (filter (\<lambda>v. v \<noteq> None) vs)"

definition spec_date_ranges :: "database \<Rightarrow> date_ranges" where
  \<comment> \<open>the ranges as the specification words them: each column over the notes where that
     column is not NULL\<close>
  "spec_date_ranges db =
     (let cs = parsed (map n_created_datetime (notes_tbl db));
          ms = parsed (map n_modified_datetime (notes_tbl db))
      in \<lparr>earliest_created = (if cs = [] then None else Some (Min (set cs))),
          latest_created = (if cs = [] then None else Some (Max (set cs))),
          earliest_modified = (if ms = [] then None else Some (Min (set ms))),
          latest_modified = (if ms = [] then None else Some (Max (set ms)))\<rparr>)"

section \<open>What an import stores\<close>

text \<open>
  The rows a note record submits, in the order of the statements, and the table an
  \<open>INSERT OR IGNORE\<close> of each of them in turn leaves. These are the terms in which the
  results below describe the store after \<open>import_note\<close>.
\<close>

definition ins_ignore :: "('r \<Rightarrow> 'k) \<Rightarrow> 'r \<Rightarrow> 'r list \<Rightarrow> 'r list" where
  "ins_ignore key row tbl = (if key row \<in> set (map key tbl) then tbl else tbl @ [row])"

primrec ins_all :: "('r \<Rightarrow> 'k) \<Rightarrow> 'r list \<Rightarrow> 'r list \<Rightarrow> 'r list" where
  "ins_all key [] tbl = tbl"
| "ins_all key (r # rs) tbl = ins_all key rs (ins_ignore key r tbl)"

definition flat_link_rows :: "string \<Rightarrow> string list \<Rightarrow> link_row list" where
  "flat_link_rows nid links = map (\<lambda>u. \<lparr>l_note_id = nid, l_url = u, l_link_type = None\<rparr>) links"

definition typed_link_rows :: "string \<Rightarrow> (string \<times> string list) list \<Rightarrow> link_row list" where
  "typed_link_rows nid cat =
     concat (map (\<lambda>(t, ls). map (\<lambda>u. \<lparr>l_note_id = nid, l_url = u, l_link_type = Some t\<rparr>) ls) cat)"

primrec image_rows :: "string \<Rightarrow> nat \<Rightarrow> image_entry list \<Rightarrow> image_row list" where
  "image_rows nid idx [] = []"
| "image_rows nid idx (img # imgs) =
     (if in_int64 (i_size_bytes (image_values nid idx img)) then [image_values nid idx img] else []) @
     image_rows nid (idx + 1) imgs"

definition category_rows :: "string \<Rightarrow> string list \<Rightarrow> category_row list" where
  "category_rows nid cats = map (\<lambda>c. \<lparr>c_note_id = nid, c_category = c\<rparr>) cats"

definition task_rows :: "string \<Rightarrow> entry list \<Rightarrow> task_row list" where
  "task_rows nid es = map (\<lambda>e. \<lparr>t_note_id = nid, t_task_text = entry_text e\<rparr>) es"

definition idea_rows :: "string \<Rightarrow> entry list \<Rightarrow> idea_row list" where
  "idea_rows nid es = map (\<lambda>e. \<lparr>d_note_id = nid, d_idea_text = entry_text e\<rparr>) es"

definition project_rows :: "string \<Rightarrow> entry list \<Rightarrow> project_row list" where
  "project_rows nid es = map (\<lambda>e. \<lparr>p_note_id = nid, p_project_name = entry_text e\<rparr>) es"

definition payload :: "note_data \<Rightarrow> analysis_data" where
  "payload nd = get_or (nd_analysis nd) empty_analysis"

definition extracted :: "note_data \<Rightarrow> extracted_data" where
  "extracted nd = get_or (nd_extracted_data nd) empty_extracted_data"

definition link_rows :: "string \<Rightarrow> note_data \<Rightarrow> link_row list" where
  "link_rows nid nd =
     flat_link_rows nid (get_or (ed_links (extracted nd)) []) @
     typed_link_rows nid (get_or (an_links_categorized (payload nd)) [])"

definition analysis_rows :: "string \<Rightarrow> analysis_data \<Rightarrow> analysis_row list" where
  "analysis_rows nid a =
     (if get_or (an_summary a) [] \<noteq> [] \<or> take 1000 (get_or (an_plain_text a) []) \<noteq> []
      then [\<lparr>a_note_id = nid, a_summary = get_or (an_summary a) [],
             a_plain_text_sample = take 1000 (get_or (an_plain_text a) [])\<rparr>]
      else [])"

definition children_db :: "string \<Rightarrow> note_data \<Rightarrow> database \<Rightarrow> database" where
  "children_db nid nd db =
     db\<lparr>extracted_links := ins_all link_key (link_rows nid nd) (extracted_links db),
        extracted_images :=
          ins_all image_key (image_rows nid 1 (get_or (ed_images (extracted nd)) [])) (extracted_images db),
        note_categories :=
          ins_all category_key (category_rows nid (get_or (nd_categories nd) [])) (note_categories db),
        analysis := ins_all a_note_id (analysis_rows nid (payload nd)) (analysis db),
        extracted_tasks := extracted_tasks db @ task_rows nid (get_or (an_tasks (payload nd)) []),
        extracted_ideas := extracted_ideas db @ idea_rows nid (get_or (an_ideas (payload nd)) []),
        extracted_projects :=
          extracted_projects db @ project_rows nid (get_or (an_projects (payload nd)) [])\<rparr>"

definition accepts :: "database \<Rightarrow> note_data \<Rightarrow> bool" where
  "accepts db nd =
     (case nd_note_id nd of
        None \<Rightarrow> False
      | Some nid \<Rightarrow>
          nid \<noteq> [] \<and> in_int64 (get_or (nd_original_index nd) 0) \<and>
          Some (get_or (nd_id nd) []) \<notin> set (map n_coredata_id (notes_tbl db)) \<and>
          nid \<notin> set (map n_note_id (notes_tbl db)))"

subsection \<open>Example inputs\<close>

definition note_with_id :: "string \<Rightarrow> note_data" where
  \<comment> \<open>the JSON object with the one key \<open>note_id\<close>\<close>
  "note_with_id nid =
     \<lparr>nd_note_id = Some nid, nd_original_index = None, nd_title = None, nd_content = None,
      nd_content_cleaned = None, nd_folder = None, nd_account = None, nd_id = None,
      nd_created = None, nd_modified = None, nd_status = None, nd_processed = None,
      nd_primary_category = None, nd_extracted_data = None, nd_categories = None,
      nd_analysis = None\<rparr>"

definition fresh :: NotesDatabase where
  \<comment> \<open>a run that starts on a new database file\<close>
  "fresh = connect new_database"


definition note_repeats :: note_data where
  \<comment> \<open>every list names its one element twice\<close>
  "note_repeats =
     (note_with_id ''note_0001'')\<lparr>
        nd_extracted_data :=
          Some \<lparr>ed_links = Some [''https://a.com'', ''https://a.com''],
                ed_images = Some [ImageStr ''photo.png'', ImageStr ''photo.png'']\<rparr>,
        nd_categories := Some [''work'', ''work'']\<rparr>"

definition stored_repeats :: NotesDatabase where
  \<comment> \<open>the run after \<open>note_repeats\<close> on a new database\<close>
  "stored_repeats =
     \<lparr>conn =
        \<lparr>foreign_keys = True,
         notes_tbl =
           [\<lparr>n_note_id = ''note_0001'', n_original_index = 0, n_title = ''Untitled'',
             n_content = [], n_content_cleaned = [], n_plain_text = [], n_folder = ''Notes'',
             n_account = ''Unknown'', n_coredata_id = Some [], n_created_raw = [],
             n_created_datetime = None, n_modified_raw = [], n_modified_datetime = None,
             n_status = ''pending'', n_processed = 0, n_primary_category = None,
             n_content_length = 0\<rparr>],
         extracted_links =
           [\<lparr>l_note_id = ''note_0001'', l_url = ''https://a.com'', l_link_type = None\<rparr>],
         extracted_images =
           [\<lparr>i_note_id = ''note_0001'', i_filename = ''photo.png'',
             i_relative_path = ''images/photo.png'', i_image_format = [], i_size_bytes = 0,
             i_extraction_order = 1\<rparr>],
         analysis = [], extracted_tasks = [], extracted_ideas = [], extracted_projects = [],
         note_categories = [\<lparr>c_note_id = ''note_0001'', c_category = ''work''\<rparr>]\<rparr>,
      stats =
        \<lparr>notes_imported = 1, links_imported = 2, images_imported = 2, categories_imported = 2,
         tasks_imported = 0, ideas_imported = 0, projects_imported = 0, errors = []\<rparr>\<rparr>"

definition note_again :: note_data where
  \<comment> \<open>the key of the stored note under another external id\<close>
  "note_again = (note_with_id ''note_0001'')\<lparr>nd_id := Some ''x-coredata://2''\<rparr>"

definition note_both :: note_data where
  \<comment> \<open>one URL, in the flat list and under a category\<close>
  "note_both =
     (note_with_id ''note_0001'')\<lparr>
        nd_extracted_data := Some \<lparr>ed_links = Some [''https://a.com''], ed_images = None\<rparr>,
        nd_analysis := Some (empty_analysis\<lparr>an_links_categorized := Some [(''youtube'', [''https://a.com''])]\<rparr>)\<rparr>"

definition image_filename :: "image_entry \<Rightarrow> string" where
  \<comment> \<open>the file name an entry is stored under\<close>
  "image_filename img = i_filename (image_values [] 0 img)"

definition note_photo :: note_data where
  \<comment> \<open>an image object, then a bare file name\<close>
  "note_photo =
     (note_with_id ''note_0001'')\<lparr>
        nd_extracted_data :=
          Some \<lparr>ed_links = None,
                ed_images = Some [ImageDict \<lparr>im_filename = Some ''scan.jpg'', im_path = None,
                                              im_format = Some ''jpg'', im_size = Some 2048\<rparr>,
                                  ImageStr ''photo.png'']\<rparr>\<rparr>"

definition note_tasks_only :: note_data where
  \<comment> \<open>an analysis payload with one task and neither summary nor text\<close>
  "note_tasks_only =
     (note_with_id ''note_0001'')\<lparr>
        nd_analysis := Some (empty_analysis\<lparr>an_tasks := Some [EntryStr ''Call Bob'']\<rparr>)\<rparr>"

definition note_summary :: note_data where
  \<comment> \<open>an analysis payload with a summary\<close>
  "note_summary =
     (note_with_id ''note_0001'')\<lparr>
        nd_analysis := Some (empty_analysis\<lparr>an_summary := Some ''Groceries for the week''\<rparr>)\<rparr>"

definition note_next :: note_data where
  \<comment> \<open>a record the store of \<open>stored_repeats\<close> has no key of\<close>
  "note_next = (note_with_id ''note_0002'')\<lparr>nd_id := Some ''x-coredata://3''\<rparr>"

definition note_same_name :: note_data where
  \<comment> \<open>an image object and a bare file name with the same file name\<close>
  "note_same_name =
     (note_with_id ''note_0001'')\<lparr>
        nd_extracted_data :=
          Some \<lparr>ed_links = None,
                ed_images = Some [ImageDict \<lparr>im_filename = Some ''photo.png'',
                                              im_path = Some ''custom/p.png'',
                                              im_format = Some ''png'', im_size = Some 5\<rparr>,
                                  ImageStr ''photo.png'']\<rparr>\<rparr>"

definition left_analysis :: NotesDatabase where
  \<comment> \<open>a run on a database that holds an analysis row whose note is not stored\<close>
  "left_analysis =
     fresh\<lparr>conn := (conn fresh)\<lparr>analysis :=
        [\<lparr>a_note_id = ''note_0001'', a_summary = ''An older summary'',
          a_plain_text_sample = []\<rparr>]\<rparr>\<rparr>"

definition note_linked :: note_data where
  \<comment> \<open>a record with one link\<close>
  "note_linked =
     (note_with_id ''note_0001'')\<lparr>
        nd_extracted_data := Some \<lparr>ed_links = Some [''https://a.com''], ed_images = None\<rparr>\<rparr>"

definition partial_import :: NotesDatabase where
  \<comment> \<open>the note row of \<open>note_linked\<close> is stored, its link row is missing\<close>
  "partial_import =
     (let s = import_note id fresh note_linked in s\<lparr>conn := (conn s)\<lparr>extracted_links := []\<rparr>\<rparr>)"

definition note_created_unparsed :: note_data where
  "note_created_unparsed =
     (note_with_id ''note_0001'')\<lparr>nd_id := Some ''x-coredata://1'',
        nd_created := Some ''whenever'', nd_modified := Some ''2020-01-01 00:00:00''\<rparr>"

definition note_both_parsed :: note_data where
  "note_both_parsed =
     (note_with_id ''note_0002'')\<lparr>nd_id := Some ''x-coredata://2'',
        nd_created := Some ''Saturday, November 8, 2025 at 21:59:06'',
        nd_modified := Some ''2025-11-09 08:00:00''\<rparr>"

definition dated_run :: NotesDatabase where
  "dated_run = import_all id fresh [note_created_unparsed, note_both_parsed]"

section \<open>The store after the child loops\<close>

lemma ins_all_append: "ins_all key (xs @ ys) tbl = ins_all key ys (ins_all key xs tbl)"
  by (induction xs arbitrary: tbl) simp_all

lemma insert_link_ok:
  "parent_exists db (l_note_id row) \<Longrightarrow>
   insert_link db row = Inr (db\<lparr>extracted_links := ins_ignore link_key row (extracted_links db)\<rparr>)"
  by (simp add: insert_link_def insert_or_ignore_def fk_allows_def ins_ignore_def)

lemma insert_image_ok:
  "parent_exists db (i_note_id row) \<Longrightarrow> in_int64 (i_size_bytes row) \<Longrightarrow>
   insert_image db row = Inr (db\<lparr>extracted_images := ins_ignore image_key row (extracted_images db)\<rparr>)"
  by (simp add: insert_image_def insert_or_ignore_def fk_allows_def ins_ignore_def)

lemma insert_image_overflow:
  "\<not> in_int64 (i_size_bytes row) \<Longrightarrow> insert_image db row = Inl IntegerOverflow"
  by (simp add: insert_image_def)

lemma insert_category_ok:
  "parent_exists db (c_note_id row) \<Longrightarrow>
   insert_category db row = Inr (db\<lparr>note_categories := ins_ignore category_key row (note_categories db)\<rparr>)"
  by (simp add: insert_category_def insert_or_ignore_def fk_allows_def ins_ignore_def)

lemma insert_analysis_ok:
  "parent_exists db (a_note_id row) \<Longrightarrow>
   insert_analysis db row = Inr (db\<lparr>analysis := ins_ignore a_note_id row (analysis db)\<rparr>)"
  by (simp add: insert_analysis_def insert_or_ignore_def fk_allows_def ins_ignore_def)

lemma insert_task_ok:
  "parent_exists db (t_note_id row) \<Longrightarrow>
   insert_task db row = Inr (db\<lparr>extracted_tasks := extracted_tasks db @ [row]\<rparr>)"
  by (simp add: insert_task_def insert_row_def fk_allows_def)

lemma insert_idea_ok:
  "parent_exists db (d_note_id row) \<Longrightarrow>
   insert_idea db row = Inr (db\<lparr>extracted_ideas := extracted_ideas db @ [row]\<rparr>)"
  by (simp add: insert_idea_def insert_row_def fk_allows_def)

lemma insert_project_ok:
  "parent_exists db (p_note_id row) \<Longrightarrow>
   insert_project db row = Inr (db\<lparr>extracted_projects := extracted_projects db @ [row]\<rparr>)"
  by (simp add: insert_project_def insert_row_def fk_allows_def)

lemma import_links_conn:
  "parent_exists (conn s) nid \<Longrightarrow>
   conn (import_links nid links s) =
     (conn s)\<lparr>extracted_links := ins_all link_key (flat_link_rows nid links) (extracted_links (conn s))\<rparr>"
proof (induction links arbitrary: s)
  case Nil
  then show ?case by (simp add: flat_link_rows_def)
next
  case (Cons u links)
  then show ?case
    by (simp add: insert_link_ok flat_link_rows_def parent_exists_def)
qed

lemma import_links_stats:
  "parent_exists (conn s) nid \<Longrightarrow>
   stats (import_links nid links s) =
     (stats s)\<lparr>links_imported := links_imported (stats s) + length links\<rparr>"
proof (induction links arbitrary: s)
  case Nil
  then show ?case by simp
next
  case (Cons u links)
  then show ?case
    by (simp add: insert_link_ok parent_exists_def)
qed

lemma import_typed_links_conn:
  "parent_exists (conn s) nid \<Longrightarrow>
   conn (import_typed_links nid t ls s) =
     (conn s)\<lparr>extracted_links :=
        ins_all link_key (map (\<lambda>u. \<lparr>l_note_id = nid, l_url = u, l_link_type = Some t\<rparr>) ls)
          (extracted_links (conn s))\<rparr>"
proof (induction ls arbitrary: s)
  case Nil
  then show ?case by simp
next
  case (Cons u ls)
  then show ?case
    by (simp add: insert_link_ok parent_exists_def)
qed

lemma import_typed_links_stats:
  "parent_exists (conn s) nid \<Longrightarrow>
   stats (import_typed_links nid t ls s) =
     (stats s)\<lparr>links_imported := links_imported (stats s) + length ls\<rparr>"
proof (induction ls arbitrary: s)
  case Nil
  then show ?case by simp
next
  case (Cons u ls)
  then show ?case
    by (simp add: insert_link_ok parent_exists_def)
qed

lemma import_links_categorized_conn:
  "parent_exists (conn s) nid \<Longrightarrow>
   conn (import_links_categorized nid cat s) =
     (conn s)\<lparr>extracted_links := ins_all link_key (typed_link_rows nid cat) (extracted_links (conn s))\<rparr>"
proof (induction cat arbitrary: s)
  case Nil
  then show ?case by (simp add: typed_link_rows_def)
next
  case (Cons p cat)
  obtain t ls where p: "p = (t, ls)" by (cases p)
  have pe: "parent_exists (conn (import_typed_links nid t ls s)) nid"
    using Cons.prems by (simp add: import_typed_links_conn) (simp add: parent_exists_def)
  show ?case
    using Cons.IH [OF pe] Cons.prems
    by (simp add: p import_typed_links_conn typed_link_rows_def ins_all_append)
qed

lemma import_links_categorized_stats:
  "parent_exists (conn s) nid \<Longrightarrow>
   stats (import_links_categorized nid cat s) =
     (stats s)\<lparr>links_imported := links_imported (stats s) + length (typed_link_rows nid cat)\<rparr>"
proof (induction cat arbitrary: s)
  case Nil
  then show ?case by (simp add: typed_link_rows_def)
next
  case (Cons p cat)
  obtain t ls where p: "p = (t, ls)" by (cases p)
  have pe: "parent_exists (conn (import_typed_links nid t ls s)) nid"
    using Cons.prems by (simp add: import_typed_links_conn) (simp add: parent_exists_def)
  show ?case
    using Cons.IH [OF pe] Cons.prems
    by (simp add: p import_typed_links_stats typed_link_rows_def)
qed

lemma import_images_conn:
  "parent_exists (conn s) nid \<Longrightarrow>
   conn (import_images nid idx imgs s) =
     (conn s)\<lparr>extracted_images := ins_all image_key (image_rows nid idx imgs) (extracted_images (conn s))\<rparr>"
proof (induction imgs arbitrary: s idx)
  case Nil
  then show ?case by simp
next
  case (Cons img imgs)
  have nid: "i_note_id (image_values nid idx img) = nid"
    by (cases img) (simp_all add: Let_def)
  show ?case
  proof (cases "in_int64 (i_size_bytes (image_values nid idx img))")
    case True
    with Cons show ?thesis
      by (simp add: insert_image_ok nid parent_exists_def)
  next
    case False
    with Cons show ?thesis
      by (simp add: insert_image_overflow add_error_def)
  qed
qed

lemma import_categories_conn:
  "parent_exists (conn s) nid \<Longrightarrow>
   conn (import_categories nid cats s) =
     (conn s)\<lparr>note_categories := ins_all category_key (category_rows nid cats) (note_categories (conn s))\<rparr>"
proof (induction cats arbitrary: s)
  case Nil
  then show ?case by (simp add: category_rows_def)
next
  case (Cons c cats)
  then show ?case
    by (simp add: insert_category_ok category_rows_def parent_exists_def)
qed

lemma import_categories_stats:
  "parent_exists (conn s) nid \<Longrightarrow>
   stats (import_categories nid cats s) =
     (stats s)\<lparr>categories_imported := categories_imported (stats s) + length cats\<rparr>"
proof (induction cats arbitrary: s)
  case Nil
  then show ?case by simp
next
  case (Cons c cats)
  then show ?case
    by (simp add: insert_category_ok parent_exists_def)
qed

lemma import_tasks_conn:
  "parent_exists (conn s) nid \<Longrightarrow>
   conn (import_tasks nid es s) =
     (conn s)\<lparr>extracted_tasks := extracted_tasks (conn s) @ task_rows nid es\<rparr>"
proof (induction es arbitrary: s)
  case Nil
  then show ?case by (simp add: task_rows_def)
next
  case (Cons e es)
  then show ?case
    by (simp add: insert_task_ok task_rows_def parent_exists_def)
qed

lemma import_tasks_stats:
  "parent_exists (conn s) nid \<Longrightarrow>
   stats (import_tasks nid es s) = (stats s)\<lparr>tasks_imported := tasks_imported (stats s) + length es\<rparr>"
proof (induction es arbitrary: s)
  case Nil
  then show ?case by simp
next
  case (Cons e es)
  then show ?case
    by (simp add: insert_task_ok parent_exists_def)
qed

lemma import_ideas_conn:
  "parent_exists (conn s) nid \<Longrightarrow>
   conn (import_ideas nid es s) =
     (conn s)\<lparr>extracted_ideas := extracted_ideas (conn s) @ idea_rows nid es\<rparr>"
proof (induction es arbitrary: s)
  case Nil
  then show ?case by (simp add: idea_rows_def)
next
  case (Cons e es)
  then show ?case
    by (simp add: insert_idea_ok idea_rows_def parent_exists_def)
qed

lemma import_ideas_stats:
  "parent_exists (conn s) nid \<Longrightarrow>
   stats (import_ideas nid es s) = (stats s)\<lparr>ideas_imported := ideas_imported (stats s) + length es\<rparr>"
proof (induction es arbitrary: s)
  case Nil
  then show ?case by simp
next
  case (Cons e es)
  then show ?case
    by (simp add: insert_idea_ok parent_exists_def)
qed

lemma import_projects_conn:
  "parent_exists (conn s) nid \<Longrightarrow>
   conn (import_projects nid es s) =
     (conn s)\<lparr>extracted_projects := extracted_projects (conn s) @ project_rows nid es\<rparr>"
proof (induction es arbitrary: s)
  case Nil
  then show ?case by (simp add: project_rows_def)
next
  case (Cons e es)
  then show ?case
    by (simp add: insert_project_ok project_rows_def parent_exists_def)
qed

lemma import_projects_stats:
  "parent_exists (conn s) nid \<Longrightarrow>
   stats (import_projects nid es s) =
     (stats s)\<lparr>projects_imported := projects_imported (stats s) + length es\<rparr>"
proof (induction es arbitrary: s)
  case Nil
  then show ?case by simp
next
  case (Cons e es)
  then show ?case
    by (simp add: insert_project_ok parent_exists_def)
qed

lemma not_truthy_fields:
  "\<not> truthy a \<Longrightarrow>
   an_summary a = None \<and> an_plain_text a = None \<and> an_tasks a = None \<and> an_ideas a = None \<and>
   an_projects a = None \<and> an_links_categorized a = None"
  by (simp add: truthy_def)

lemma import_analysis_conn:
  assumes "parent_exists (conn s) nid"
  shows "conn (import_analysis nid a s) =
     (conn s)\<lparr>analysis := ins_all a_note_id (analysis_rows nid a) (analysis (conn s)),
        extracted_tasks := extracted_tasks (conn s) @ task_rows nid (get_or (an_tasks a) []),
        extracted_ideas := extracted_ideas (conn s) @ idea_rows nid (get_or (an_ideas a) []),
        extracted_projects := extracted_projects (conn s) @ project_rows nid (get_or (an_projects a) [])\<rparr>"
proof -
  define s1 where "s1 =
    (if get_or (an_summary a) [] \<noteq> [] \<or> take 1000 (get_or (an_plain_text a) []) \<noteq> [] then
       (case insert_analysis (conn s)
               \<lparr>a_note_id = nid, a_summary = get_or (an_summary a) [],
                a_plain_text_sample = take 1000 (get_or (an_plain_text a) [])\<rparr> of
          Inr db \<Rightarrow> s\<lparr>conn := db\<rparr>
        | Inl e \<Rightarrow> add_error (''Analysis import error for '' @ nid @ '': '' @ error_text e) s)
     else s)"
  have c1: "conn s1 = (conn s)\<lparr>analysis := ins_all a_note_id (analysis_rows nid a) (analysis (conn s))\<rparr>"
    using assms by (simp add: s1_def insert_analysis_ok analysis_rows_def)
  have p1: "parent_exists (conn s1) nid"
    using assms by (simp add: c1) (simp add: parent_exists_def)
  have p2: "parent_exists (conn (import_tasks nid (get_or (an_tasks a) []) s1)) nid"
    using p1 by (simp add: import_tasks_conn) (simp add: parent_exists_def)
  have p3: "parent_exists (conn (import_ideas nid (get_or (an_ideas a) [])
              (import_tasks nid (get_or (an_tasks a) []) s1))) nid"
    using p2 by (simp add: import_ideas_conn) (simp add: parent_exists_def)
  have "import_analysis nid a s =
          import_projects nid (get_or (an_projects a) [])
            (import_ideas nid (get_or (an_ideas a) []) (import_tasks nid (get_or (an_tasks a) []) s1))"
    by (simp add: import_analysis_def s1_def Let_def)
  then show ?thesis
    by (simp add: import_projects_conn [OF p3] import_ideas_conn [OF p2] import_tasks_conn [OF p1] c1)
qed

lemma import_children_conn:
  assumes "parent_exists (conn s) nid"
  shows "conn (import_children nid nd s) = children_db nid nd (conn s)"
proof -
  define s1 where "s1 = import_links nid (get_or (ed_links (extracted nd)) []) s"
  define s2 where "s2 = import_links_categorized nid (get_or (an_links_categorized (payload nd)) []) s1"
  define s3 where "s3 = import_images nid 1 (get_or (ed_images (extracted nd)) []) s2"
  define s4 where "s4 = import_categories nid (get_or (nd_categories nd) []) s3"
  have c1: "conn s1 = (conn s)\<lparr>extracted_links :=
      ins_all link_key (flat_link_rows nid (get_or (ed_links (extracted nd)) [])) (extracted_links (conn s))\<rparr>"
    using assms by (simp add: s1_def import_links_conn)
  have p1: "parent_exists (conn s1) nid"
    using assms by (simp add: c1) (simp add: parent_exists_def)
  have c2: "conn s2 = (conn s)\<lparr>extracted_links := ins_all link_key (link_rows nid nd) (extracted_links (conn s))\<rparr>"
    by (simp add: s2_def import_links_categorized_conn [OF p1] c1 link_rows_def ins_all_append)
  have p2: "parent_exists (conn s2) nid"
    using assms by (simp add: c2) (simp add: parent_exists_def)
  have c3: "conn s3 = (conn s2)\<lparr>extracted_images :=
      ins_all image_key (image_rows nid 1 (get_or (ed_images (extracted nd)) [])) (extracted_images (conn s2))\<rparr>"
    by (simp add: s3_def import_images_conn [OF p2])
  have p3: "parent_exists (conn s3) nid"
    using p2 by (simp add: c3) (simp add: parent_exists_def)
  have c4: "conn s4 = (conn s3)\<lparr>note_categories :=
      ins_all category_key (category_rows nid (get_or (nd_categories nd) [])) (note_categories (conn s3))\<rparr>"
    by (simp add: s4_def import_categories_conn [OF p3])
  have p4: "parent_exists (conn s4) nid"
    using p3 by (simp add: c4) (simp add: parent_exists_def)
  have unfold: "import_children nid nd s =
      (if truthy (payload nd) then import_analysis nid (payload nd) s4 else s4)"
    by (simp add: import_children_def Let_def s1_def s2_def s3_def s4_def payload_def extracted_def)
  show ?thesis
  proof (cases "truthy (payload nd)")
    case True
    then show ?thesis
      by (simp add: unfold import_analysis_conn [OF p4] c4 c3 c2 children_db_def)
  next
    case False
    from not_truthy_fields [OF False] show ?thesis
      by (simp add: unfold False c4 c3 c2 children_db_def analysis_rows_def task_rows_def
            idea_rows_def project_rows_def get_or_def)
  qed
qed

lemma import_note_accepted:
  assumes "accepts (conn s) nd" and "nd_note_id nd = Some nid"
  shows "conn (import_note feed s nd) =
           children_db nid nd ((conn s)\<lparr>notes_tbl := notes_tbl (conn s) @ [note_values feed nid nd]\<rparr>)"
proof -
  have nv: "n_note_id (note_values feed nid nd) = nid"
       "n_coredata_id (note_values feed nid nd) = Some (get_or (nd_id nd) [])"
       "n_original_index (note_values feed nid nd) = get_or (nd_original_index nd) 0"
    by (simp_all add: note_values_def Let_def)
  have ins: "insert_note (conn s) (note_values feed nid nd) =
               Inr ((conn s)\<lparr>notes_tbl := notes_tbl (conn s) @ [note_values feed nid nd]\<rparr>)"
    using assms by (simp add: insert_note_def accepts_def nv)
  have nonempty: "nid \<noteq> []"
    using assms by (simp add: accepts_def)
  have pe: "parent_exists (conn (s\<lparr>conn := (conn s)\<lparr>notes_tbl := notes_tbl (conn s) @ [note_values feed nid nd]\<rparr>,
              stats := (stats s)\<lparr>notes_imported := notes_imported (stats s) + 1\<rparr>\<rparr>)) nid"
    by (simp add: parent_exists_def nv)
  show ?thesis
    using import_children_conn [OF pe, of nd]
    by (simp add: import_note_def assms(2) nonempty ins)
qed

lemma import_note_rejected:
  assumes "\<not> accepts (conn s) nd"
  shows "conn (import_note feed s nd) = conn s"
proof (cases "nd_note_id nd")
  case None
  then show ?thesis by (simp add: import_note_def add_error_def)
next
  case (Some nid)
  have nv: "n_note_id (note_values feed nid nd) = nid"
       "n_coredata_id (note_values feed nid nd) = Some (get_or (nd_id nd) [])"
       "n_original_index (note_values feed nid nd) = get_or (nd_original_index nd) 0"
    by (simp_all add: note_values_def Let_def)
  show ?thesis
    using assms Some
    by (auto simp add: import_note_def add_error_def insert_note_def accepts_def nv)
qed

section \<open>The note row\<close>

lemma notes_tbl_children_db: "notes_tbl (children_db nid nd db) = notes_tbl db"
  by (simp add: children_db_def)

lemma import_note_accepted_notes:
  assumes "accepts (conn s) nd" and "nd_note_id nd = Some nid"
  shows "notes_tbl (conn (import_note feed s nd)) = notes_tbl (conn s) @ [note_values feed nid nd]"
  by (simp add: import_note_accepted [OF assms] notes_tbl_children_db)

lemma import_note_repeats: "import_note id fresh note_repeats = stored_repeats"
  by code_simp



section \<open>The counters of a run\<close>

text \<open>
  C3. Each counter of a run should equal the number of rows of its kind that the run
  inserted. On a record that names a link, an image and a category twice, the three
  counters are 2 while one row of each kind is stored: an \<open>INSERT OR IGNORE\<close> that
  drops its row raises nothing, so the increment behind it still runs.
\<close>

theorem counters_count_ignored_inserts:
  "links_imported (stats (import_note id fresh note_repeats)) = 2 \<and>
   length (extracted_links (conn (import_note id fresh note_repeats))) = 1 \<and>
   images_imported (stats (import_note id fresh note_repeats)) = 2 \<and>
   length (extracted_images (conn (import_note id fresh note_repeats))) = 1 \<and>
   categories_imported (stats (import_note id fresh note_repeats)) = 2 \<and>
   length (note_categories (conn (import_note id fresh note_repeats))) = 1"
  by (simp add: import_note_repeats stored_repeats_def)

section \<open>A note whose key is already stored\<close>

lemma import_note_existing_key:
  assumes "nd_note_id nd = Some nid" and "nid \<noteq> []" and "parent_exists (conn s) nid"
  shows "\<exists>e. import_note feed s nd =
               add_error (''Failed to import note '' @ nid @ '': '' @ e) s"
proof -
  have nv: "n_note_id (note_values feed nid nd) = nid"
    by (simp add: note_values_def Let_def)
  have "\<exists>e. insert_note (conn s) (note_values feed nid nd) = Inl e"
    using assms(3) by (simp add: insert_note_def nv parent_exists_def)
  then show ?thesis
    using assms(1,2) by (auto simp add: import_note_def)
qed

lemma import_note_conn_cong:
  assumes "conn s = conn s'"
  shows "conn (import_note feed s nd) = conn (import_note feed s' nd)"
proof (cases "accepts (conn s) nd")
  case True
  then obtain nid where nid: "nd_note_id nd = Some nid"
    by (cases "nd_note_id nd") (simp_all add: accepts_def)
  from True assms have "accepts (conn s') nd" by simp
  from import_note_accepted [OF True nid] import_note_accepted [OF this nid] assms
  show ?thesis by simp
next
  case False
  with assms have "\<not> accepts (conn s') nd" by simp
  from import_note_rejected [OF False] import_note_rejected [OF this] assms
  show ?thesis by simp
qed

lemma import_all_conn_cong:
  "conn s = conn s' \<Longrightarrow> conn (import_all feed s nds) = conn (import_all feed s' nds)"
proof (induction nds arbitrary: s s')
  case Nil
  then show ?case by (simp add: import_all_def)
next
  case (Cons nd nds)
  from Cons.IH [OF import_note_conn_cong [OF Cons.prems]] show ?case
    by (simp add: import_all_def)
qed

text \<open>
  C5. When the \<open>note_id\<close> of a record is the primary key of a stored note, the import
  leaves every table as it was (the stored row is not overwritten), appends to the
  error log of the run one entry that contains that \<open>note_id\<close> and changes no counter.
  The run goes on: the records that follow are stored as they would be without the
  rejected one, and a following record that the store accepts gets its note row.
\<close>

theorem existing_note_is_rejected:
  assumes "nd_note_id nd = Some nid" and "parent_exists (conn s) nid"
  shows "conn (import_note feed s nd) = conn s \<and>
         (\<exists>before after.
            stats (import_note feed s nd) =
              (stats s)\<lparr>errors := errors (stats s) @ [before @ nid @ after]\<rparr>) \<and>
         conn (import_all feed s (nd # rest)) = conn (import_all feed s rest) \<and>
         (accepts (conn s) later \<and> nd_note_id later = Some lid \<longrightarrow>
            notes_tbl (conn (import_all feed s [nd, later])) =
              notes_tbl (conn s) @ [note_values feed lid later])"
proof -
  have "\<exists>msg. import_note feed s nd = add_error (msg @ nid @ []) s \<or>
              import_note feed s nd = add_error (''Failed to import note '' @ nid @ msg) s"
  proof (cases "nid = []")
    case True
    then have "import_note feed s nd = add_error (''Missing note_id in note data'' @ nid @ []) s"
      using assms(1) by (simp add: import_note_def)
    then show ?thesis by blast
  next
    case False
    from import_note_existing_key [OF assms(1) False assms(2)] obtain e where
      "import_note feed s nd = add_error (''Failed to import note '' @ nid @ ('': '' @ e)) s"
      by auto
    then show ?thesis by blast
  qed
  then obtain before after where
    step: "import_note feed s nd = add_error (before @ nid @ after) s"
    by blast
  have cn: "conn (import_note feed s nd) = conn s"
    by (simp add: step add_error_def)
  have st: "\<exists>before after. stats (import_note feed s nd) =
              (stats s)\<lparr>errors := errors (stats s) @ [before @ nid @ after]\<rparr>"
    using step by (auto simp add: add_error_def)
  have run: "conn (import_all feed s (nd # rest)) = conn (import_all feed s rest)"
    using import_all_conn_cong [OF cn, of feed rest] by (simp add: import_all_def)
  have next_one: "accepts (conn s) later \<and> nd_note_id later = Some lid \<longrightarrow>
            notes_tbl (conn (import_all feed s [nd, later])) =
              notes_tbl (conn s) @ [note_values feed lid later]"
  proof
    assume h: "accepts (conn s) later \<and> nd_note_id later = Some lid"
    then have a: "accepts (conn (import_note feed s nd)) later"
      by (simp add: cn)
    from import_note_accepted_notes [OF a, of lid feed] h cn
    show "notes_tbl (conn (import_all feed s [nd, later])) =
            notes_tbl (conn s) @ [note_values feed lid later]"
      by (simp add: import_all_def)
  qed
  from cn st run next_one show ?thesis by blast
qed

theorem existing_note_is_rejected_witness:
  "nd_note_id note_again = Some ''note_0001'' \<and>
   parent_exists (conn stored_repeats) ''note_0001'' \<and>
   accepts (conn stored_repeats) note_next \<and> nd_note_id note_next = Some ''note_0002'' \<and>
   conn (import_note id stored_repeats note_again) = conn stored_repeats \<and>
   errors (stats (import_note id stored_repeats note_again)) =
     [''Failed to import note note_0001: UNIQUE constraint failed: notes.note_id''] \<and>
   map n_note_id (notes_tbl (conn (import_all id stored_repeats [note_again, note_next]))) =
     [''note_0001'', ''note_0002'']"
proof -
  have h1: "nd_note_id note_again = Some ''note_0001''"
    by (simp add: note_again_def note_with_id_def)
  have h2: "parent_exists (conn stored_repeats) ''note_0001''"
    by (simp add: parent_exists_def stored_repeats_def)
  have h3: "accepts (conn stored_repeats) note_next"
    by code_simp
  have h4: "nd_note_id note_next = Some ''note_0002''"
    by (simp add: note_next_def note_with_id_def)
  have e: "errors (stats (import_note id stored_repeats note_again)) =
     [''Failed to import note note_0001: UNIQUE constraint failed: notes.note_id'']"
    by code_simp
  have n: "n_note_id (note_values id ''note_0002'' note_next) = ''note_0002''"
    by (simp add: note_values_def Let_def)
  have t: "map n_note_id (notes_tbl (conn stored_repeats)) = [''note_0001'']"
    by (simp add: stored_repeats_def)
  from existing_note_is_rejected [OF h1 h2, of id "[]" note_next "''note_0002''"] h3 h4
  have "conn (import_note id stored_repeats note_again) = conn stored_repeats"
    and "map n_note_id (notes_tbl (conn (import_all id stored_repeats [note_again, note_next]))) =
           [''note_0001'', ''note_0002'']"
    by (simp_all add: n t)
  with h1 h2 h3 h4 e show ?thesis by simp
qed

section \<open>Rows under a unique key: the first one submitted stays\<close>

lemma filter_key_absent: "k \<notin> key ` set tbl \<Longrightarrow> filter (\<lambda>r. key r = k) tbl = []"
  by (induction tbl) auto

lemma ins_ignore_filter:
  "filter (\<lambda>r. key r = k) (ins_ignore key row tbl) =
     (if key row = k \<and> k \<notin> key ` set tbl then [row] else filter (\<lambda>r. key r = k) tbl)"
  by (auto simp add: ins_ignore_def filter_key_absent)

lemma ins_ignore_keys: "key ` set (ins_ignore key row tbl) = insert (key row) (key ` set tbl)"
  by (auto simp add: ins_ignore_def)

lemma ins_ignore_set: "set (ins_ignore key row tbl) \<subseteq> insert row (set tbl)"
  by (auto simp add: ins_ignore_def)

lemma ins_ignore_keeps: "set tbl \<subseteq> set (ins_ignore key row tbl)"
  by (auto simp add: ins_ignore_def)

lemma ins_all_keys: "key ` set (ins_all key rows tbl) = key ` set tbl \<union> key ` set rows"
proof (induction rows arbitrary: tbl)
  case Nil
  show ?case by simp
next
  case (Cons row rows)
  show ?case
    by (simp add: Cons.IH ins_ignore_keys)
qed

lemma ins_all_filter_present:
  "k \<in> key ` set tbl \<Longrightarrow>
   filter (\<lambda>r. key r = k) (ins_all key rows tbl) = filter (\<lambda>r. key r = k) tbl"
proof (induction rows arbitrary: tbl)
  case Nil
  then show ?case by simp
next
  case (Cons row rows)
  have "k \<in> key ` set (ins_ignore key row tbl)"
    using Cons.prems by (simp add: ins_ignore_keys)
  from Cons.IH [OF this] Cons.prems show ?case
    by (simp add: ins_ignore_filter)
qed

lemma ins_all_filter_absent:
  "k \<notin> key ` set tbl \<Longrightarrow>
   filter (\<lambda>r. key r = k) (ins_all key rows tbl) =
     (case find (\<lambda>r. key r = k) rows of None \<Rightarrow> [] | Some r \<Rightarrow> [r])"
proof (induction rows arbitrary: tbl)
  case Nil
  then show ?case by (simp add: filter_key_absent)
next
  case (Cons row rows)
  show ?case
  proof (cases "key row = k")
    case True
    have "k \<in> key ` set (ins_ignore key row tbl)"
      using True by (simp add: ins_ignore_keys)
    from ins_all_filter_present [OF this] True Cons.prems show ?thesis
      by (simp add: ins_ignore_filter)
  next
    case False
    have "k \<notin> key ` set (ins_ignore key row tbl)"
      using False Cons.prems by (auto simp add: ins_ignore_keys)
    from Cons.IH [OF this] False show ?thesis
      by simp
  qed
qed

lemma ins_all_set: "set (ins_all key rows tbl) \<subseteq> set tbl \<union> set rows"
proof (induction rows arbitrary: tbl)
  case Nil
  show ?case by simp
next
  case (Cons row rows)
  from Cons.IH [of "ins_ignore key row tbl"] ins_ignore_set [of key row tbl] show ?case
    by auto
qed

lemma ins_all_keeps: "set tbl \<subseteq> set (ins_all key rows tbl)"
proof (induction rows arbitrary: tbl)
  case Nil
  show ?case by simp
next
  case (Cons row rows)
  from Cons.IH [of "ins_ignore key row tbl"] ins_ignore_keeps [of tbl key row] show ?case
    by auto
qed

lemma find_flat_link_rows:
  "url \<in> set links \<Longrightarrow>
   find (\<lambda>r. link_key r = (nid, url)) (flat_link_rows nid links @ others) =
     Some \<lparr>l_note_id = nid, l_url = url, l_link_type = None\<rparr>"
  by (induction links) (auto simp add: flat_link_rows_def link_key_def)

lemma no_children_of_new_note:
  assumes "fk_consistent db" and "\<not> parent_exists db nid"
  shows "(nid, url) \<notin> link_key ` set (extracted_links db)"
    and "(nid, f) \<notin> image_key ` set (extracted_images db)"
    and "nid \<notin> a_note_id ` set (analysis db)"
  using assms by (auto simp add: fk_consistent_def link_key_def image_key_def)

lemma accepts_no_parent: "accepts db nd \<Longrightarrow> nd_note_id nd = Some nid \<Longrightarrow> \<not> parent_exists db nid"
  by (simp add: accepts_def parent_exists_def)

section \<open>The same URL in the flat list and under a category\<close>

text \<open>
  C1, as stated, on a record that names \<open>https://a.com\<close> in \<open>extracted_data.links\<close> and under
  \<open>youtube\<close> in \<open>analysis.links_categorized\<close>: the claim expects an untyped and a typed
  row; the table holds the untyped row alone.
\<close>

theorem typed_duplicate_is_ignored:
  "extracted_links (conn (import_note id fresh note_both)) =
     [\<lparr>l_note_id = ''note_0001'', l_url = ''https://a.com'', l_link_type = None\<rparr>]"
  by code_simp

text \<open>
  C1, amended. In a store whose child rows all belong to stored notes, a record that is
  accepted leaves, for each URL of its flat list, exactly one link row of that note and
  URL, and that row is untyped; whether the URL also stands under a category makes no
  difference, the later typed insert being ignored under UNIQUE(note_id, url).
\<close>

theorem one_untyped_row_per_flat_link:
  assumes "accepts (conn s) nd" and "nd_note_id nd = Some nid" and "fk_consistent (conn s)"
    and "url \<in> set (get_or (ed_links (extracted nd)) [])"
  shows "filter (\<lambda>r. l_note_id r = nid \<and> l_url r = url) (extracted_links (conn (import_note feed s nd))) =
           [\<lparr>l_note_id = nid, l_url = url, l_link_type = None\<rparr>]"
proof -
  let ?db = "(conn s)\<lparr>notes_tbl := notes_tbl (conn s) @ [note_values feed nid nd]\<rparr>"
  have links: "extracted_links (conn (import_note feed s nd)) =
                 ins_all link_key (link_rows nid nd) (extracted_links (conn s))"
    by (simp add: import_note_accepted [OF assms(1,2)] children_db_def)
  have absent: "(nid, url) \<notin> link_key ` set (extracted_links (conn s))"
    using no_children_of_new_note(1) [OF assms(3) accepts_no_parent [OF assms(1,2)]] .
  have "filter (\<lambda>r. link_key r = (nid, url)) (extracted_links (conn (import_note feed s nd))) =
          [\<lparr>l_note_id = nid, l_url = url, l_link_type = None\<rparr>]"
    by (simp add: links ins_all_filter_absent [OF absent] link_rows_def
          find_flat_link_rows [OF assms(4)])
  then show ?thesis
    by (simp add: link_key_def)
qed

theorem one_untyped_row_per_flat_link_witness:
  "accepts (conn fresh) note_both \<and> nd_note_id note_both = Some ''note_0001'' \<and>
   fk_consistent (conn fresh) \<and>
   ''https://a.com'' \<in> set (get_or (ed_links (extracted note_both)) []) \<and>
   ''https://a.com'' \<in> set (snd (hd (get_or (an_links_categorized (payload note_both)) []))) \<and>
   filter (\<lambda>r. l_note_id r = ''note_0001'' \<and> l_url r = ''https://a.com'')
     (extracted_links (conn (import_note id fresh note_both))) =
     [\<lparr>l_note_id = ''note_0001'', l_url = ''https://a.com'', l_link_type = None\<rparr>]"
proof -
  have h1: "accepts (conn fresh) note_both"
    by code_simp
  have h2: "nd_note_id note_both = Some ''note_0001''"
    by code_simp
  have h3: "fk_consistent (conn fresh)"
    by code_simp
  have h4: "''https://a.com'' \<in> set (get_or (ed_links (extracted note_both)) [])"
    by code_simp
  have h5: "''https://a.com'' \<in> set (snd (hd (get_or (an_links_categorized (payload note_both)) [])))"
    by code_simp
  from one_untyped_row_per_flat_link [OF h1 h2 h3 h4, of id] h1 h2 h3 h4 h5 show ?thesis
    by simp
qed

section \<open>Images given as bare file names\<close>

lemma image_values_key: "image_key (image_values nid idx img) = (nid, image_filename img)"
  by (cases img) (simp_all add: image_key_def image_filename_def Let_def)

lemma find_image_rows:
  assumes "i < length imgs" and "image_filename (imgs ! i) = f"
    and "\<forall>j<i. image_filename (imgs ! j) \<noteq> f"
    and "in_int64 (i_size_bytes (image_values nid (idx + i) (imgs ! i)))"
  shows "find (\<lambda>r. image_key r = (nid, f)) (image_rows nid idx imgs) =
           Some (image_values nid (idx + i) (imgs ! i))"
  using assms
proof (induction imgs arbitrary: i idx)
  case Nil
  then show ?case by simp
next
  case (Cons img imgs)
  show ?case
  proof (cases i)
    case 0
    with Cons.prems show ?thesis
      by (simp add: image_values_key)
  next
    case (Suc k)
    have first: "image_filename img \<noteq> f"
      using Cons.prems(3) Suc by auto
    have k: "k < length imgs" "image_filename (imgs ! k) = f"
      using Cons.prems(1,2) Suc by simp_all
    have earlier: "\<forall>j<k. image_filename (imgs ! j) \<noteq> f"
      using Cons.prems(3) Suc by auto
    have fits: "in_int64 (i_size_bytes (image_values nid (idx + 1 + k) (imgs ! k)))"
      using Cons.prems(4) Suc by simp
    from Cons.IH [OF k earlier fits] first Suc show ?thesis
      by (cases "in_int64 (i_size_bytes (image_values nid idx img))")
         (simp_all add: image_values_key)
  qed
qed

text \<open>
  C9, as stated, on a record whose image list holds an object for \<open>photo.png\<close> and then
  the bare string \<open>photo.png\<close>: the claim expects a row with relative path
  \<open>images/photo.png\<close>, empty format, size 0 and order 2; the one row stored for that file
  name is the object's, the insert of the bare string being ignored under
  UNIQUE(note_id, filename).
\<close>

theorem bare_image_after_same_name:
  "extracted_images (conn (import_note id fresh note_same_name)) =
     [\<lparr>i_note_id = ''note_0001'', i_filename = ''photo.png'',
       i_relative_path = ''custom/p.png'', i_image_format = ''png'', i_size_bytes = 5,
       i_extraction_order = 1\<rparr>]"
  by code_simp

text \<open>
  C9, amended. When a record is accepted into a store whose child rows all belong to
  stored notes, and an entry of its \<open>extracted_data.images\<close> is a bare string that no
  earlier entry of the list has as file name, then the one image row stored for the
  note and that file name has the string as file name, \<open>images/\<close> followed by it as
  relative path, an empty format, size 0 and the 1-based position of the entry as
  extraction order.
\<close>

theorem bare_image_row:
  assumes "accepts (conn s) nd" and "nd_note_id nd = Some nid" and "fk_consistent (conn s)"
    and "i < length (get_or (ed_images (extracted nd)) [])"
    and "get_or (ed_images (extracted nd)) [] ! i = ImageStr f"
    and "\<forall>j<i. image_filename (get_or (ed_images (extracted nd)) [] ! j) \<noteq> f"
  shows "filter (\<lambda>r. i_note_id r = nid \<and> i_filename r = f)
           (extracted_images (conn (import_note feed s nd))) =
           [\<lparr>i_note_id = nid, i_filename = f, i_relative_path = ''images/'' @ f,
             i_image_format = [], i_size_bytes = 0, i_extraction_order = i + 1\<rparr>]"
proof -
  let ?imgs = "get_or (ed_images (extracted nd)) []"
  let ?row = "\<lparr>i_note_id = nid, i_filename = f, i_relative_path = ''images/'' @ f,
               i_image_format = [], i_size_bytes = 0, i_extraction_order = i + 1\<rparr>"
  have val: "image_values nid (1 + i) (?imgs ! i) = ?row"
    by (simp add: assms(5))
  have fits: "in_int64 (i_size_bytes (image_values nid (1 + i) (?imgs ! i)))"
    by (simp add: assms(5) in_int64_def)
  have name: "image_filename (?imgs ! i) = f"
    by (simp add: assms(5) image_filename_def)
  have images: "extracted_images (conn (import_note feed s nd)) =
                  ins_all image_key (image_rows nid 1 ?imgs) (extracted_images (conn s))"
    by (simp add: import_note_accepted [OF assms(1,2)] children_db_def)
  have absent: "(nid, f) \<notin> image_key ` set (extracted_images (conn s))"
    using no_children_of_new_note(2) [OF assms(3) accepts_no_parent [OF assms(1,2)]] .
  have "filter (\<lambda>r. image_key r = (nid, f)) (extracted_images (conn (import_note feed s nd))) = [?row]"
    using find_image_rows [OF assms(4) name assms(6) fits] val
    by (simp add: images ins_all_filter_absent [OF absent])
  then show ?thesis
    by (simp add: image_key_def)
qed

lemma note_photo_images:
  "get_or (ed_images (extracted note_photo)) [] =
     [ImageDict \<lparr>im_filename = Some ''scan.jpg'', im_path = None, im_format = Some ''jpg'',
                 im_size = Some 2048\<rparr>,
      ImageStr ''photo.png'']"
  by (simp add: note_photo_def note_with_id_def extracted_def get_or_def)

theorem bare_image_row_witness:
  "accepts (conn fresh) note_photo \<and> nd_note_id note_photo = Some ''note_0001'' \<and>
   fk_consistent (conn fresh) \<and>
   get_or (ed_images (extracted note_photo)) [] ! 1 = ImageStr ''photo.png'' \<and>
   filter (\<lambda>r. i_note_id r = ''note_0001'' \<and> i_filename r = ''photo.png'')
     (extracted_images (conn (import_note id fresh note_photo))) =
     [\<lparr>i_note_id = ''note_0001'', i_filename = ''photo.png'',
       i_relative_path = ''images/photo.png'', i_image_format = [], i_size_bytes = 0,
       i_extraction_order = 2\<rparr>]"
proof -
  have h1: "accepts (conn fresh) note_photo"
    by code_simp
  have h2: "nd_note_id note_photo = Some ''note_0001''"
    by code_simp
  have h3: "fk_consistent (conn fresh)"
    by code_simp
  have h4: "1 < length (get_or (ed_images (extracted note_photo)) [])"
    by (simp add: note_photo_images)
  have h5: "get_or (ed_images (extracted note_photo)) [] ! 1 = ImageStr ''photo.png''"
    by (simp add: note_photo_images)
  have h6: "\<forall>j<1. image_filename (get_or (ed_images (extracted note_photo)) [] ! j) \<noteq> ''photo.png''"
    unfolding note_photo_images by (simp add: image_filename_def Let_def get_or_def)
  from bare_image_row [OF h1 h2 h3 h4 h5 h6, of id] h1 h2 h3 h5 show ?thesis
    by simp
qed

section \<open>The analysis row\<close>

lemma ins_ignore_distinct:
  "distinct (map key tbl) \<Longrightarrow> distinct (map key (ins_ignore key row tbl))"
  by (simp add: ins_ignore_def)

lemma ins_all_distinct:
  "distinct (map key tbl) \<Longrightarrow> distinct (map key (ins_all key rows tbl))"
proof (induction rows arbitrary: tbl)
  case Nil
  then show ?case by simp
next
  case (Cons row rows)
  from Cons.IH [OF ins_ignore_distinct [OF Cons.prems]] show ?case by simp
qed

lemma ins_all_taken:
  "key ` set rows \<subseteq> key ` set tbl \<Longrightarrow> ins_all key rows tbl = tbl"
proof (induction rows arbitrary: tbl)
  case Nil
  then show ?case by simp
next
  case (Cons row rows)
  have "ins_ignore key row tbl = tbl"
    using Cons.prems by (auto simp add: ins_ignore_def)
  with Cons show ?case by simp
qed

lemma analysis_rows_keys: "a_note_id ` set (analysis_rows nid a) \<subseteq> {nid}"
  by (auto simp add: analysis_rows_def)

text \<open>
  C4, as stated, on a record whose analysis payload holds one task: the note row and
  the task row are stored, the payload is there, and no analysis row is created.
\<close>

theorem analysis_payload_without_row:
  "truthy (payload note_tasks_only) \<and>
   notes_imported (stats (import_note id fresh note_tasks_only)) = 1 \<and>
   extracted_tasks (conn (import_note id fresh note_tasks_only)) =
     [\<lparr>t_note_id = ''note_0001'', t_task_text = ''Call Bob''\<rparr>] \<and>
   analysis (conn (import_note id fresh note_tasks_only)) = []"
proof -
  have a: "truthy (payload note_tasks_only)"
    by code_simp
  have b: "notes_imported (stats (import_note id fresh note_tasks_only)) = 1"
    by code_simp
  have c: "extracted_tasks (conn (import_note id fresh note_tasks_only)) =
     [\<lparr>t_note_id = ''note_0001'', t_task_text = ''Call Bob''\<rparr>]"
    by code_simp
  have d: "analysis (conn (import_note id fresh note_tasks_only)) = []"
    by code_simp
  from a b c d show ?thesis by blast
qed

text \<open>
  C4, amended. For a record that is accepted: in a store whose child rows all belong to
  stored notes it gets an analysis row if and only if its analysis payload has a
  non-empty summary or a non-empty plain text, and then exactly one, holding the summary
  and the first 1000 characters of the text; when the analysis table already holds a row
  under its \<open>note_id\<close> (a row left without its note), the import leaves the analysis
  table as it is, its own insert being ignored; and a table with at most one analysis
  row per \<open>note_id\<close> stays so.
\<close>

theorem analysis_row_iff_summary_or_text:
  assumes "accepts (conn s) nd" and "nd_note_id nd = Some nid"
  shows "(fk_consistent (conn s) \<longrightarrow>
            filter (\<lambda>r. a_note_id r = nid) (analysis (conn (import_note feed s nd))) =
              (if get_or (an_summary (payload nd)) [] \<noteq> [] \<or>
                  get_or (an_plain_text (payload nd)) [] \<noteq> []
               then [\<lparr>a_note_id = nid, a_summary = get_or (an_summary (payload nd)) [],
                      a_plain_text_sample = take 1000 (get_or (an_plain_text (payload nd)) [])\<rparr>]
               else [])) \<and>
         (nid \<in> a_note_id ` set (analysis (conn s)) \<longrightarrow>
            analysis (conn (import_note feed s nd)) = analysis (conn s)) \<and>
         (distinct (map a_note_id (analysis (conn s))) \<longrightarrow>
            distinct (map a_note_id (analysis (conn (import_note feed s nd)))))"
proof -
  have tbl: "analysis (conn (import_note feed s nd)) =
               ins_all a_note_id (analysis_rows nid (payload nd)) (analysis (conn s))"
    by (simp add: import_note_accepted [OF assms(1,2)] children_db_def)
  have first: "fk_consistent (conn s) \<longrightarrow>
            filter (\<lambda>r. a_note_id r = nid) (analysis (conn (import_note feed s nd))) =
              (if get_or (an_summary (payload nd)) [] \<noteq> [] \<or>
                  get_or (an_plain_text (payload nd)) [] \<noteq> []
               then [\<lparr>a_note_id = nid, a_summary = get_or (an_summary (payload nd)) [],
                      a_plain_text_sample = take 1000 (get_or (an_plain_text (payload nd)) [])\<rparr>]
               else [])"
  proof
    assume fk: "fk_consistent (conn s)"
    have absent: "nid \<notin> a_note_id ` set (analysis (conn s))"
      using no_children_of_new_note(3) [OF fk accepts_no_parent [OF assms(1,2)]] .
    show "filter (\<lambda>r. a_note_id r = nid) (analysis (conn (import_note feed s nd))) =
              (if get_or (an_summary (payload nd)) [] \<noteq> [] \<or>
                  get_or (an_plain_text (payload nd)) [] \<noteq> []
               then [\<lparr>a_note_id = nid, a_summary = get_or (an_summary (payload nd)) [],
                      a_plain_text_sample = take 1000 (get_or (an_plain_text (payload nd)) [])\<rparr>]
               else [])"
      by (simp add: tbl ins_all_filter_absent [OF absent] analysis_rows_def)
  qed
  have second: "nid \<in> a_note_id ` set (analysis (conn s)) \<longrightarrow>
            analysis (conn (import_note feed s nd)) = analysis (conn s)"
  proof
    assume "nid \<in> a_note_id ` set (analysis (conn s))"
    with analysis_rows_keys [of nid "payload nd"]
    have "a_note_id ` set (analysis_rows nid (payload nd)) \<subseteq> a_note_id ` set (analysis (conn s))"
      by auto
    then show "analysis (conn (import_note feed s nd)) = analysis (conn s)"
      by (simp add: tbl ins_all_taken)
  qed
  have third: "distinct (map a_note_id (analysis (conn s))) \<longrightarrow>
            distinct (map a_note_id (analysis (conn (import_note feed s nd))))"
    by (simp add: tbl ins_all_distinct)
  from first second third show ?thesis by blast
qed

theorem analysis_row_iff_summary_or_text_witness:
  "accepts (conn fresh) note_summary \<and> nd_note_id note_summary = Some ''note_0001'' \<and>
   fk_consistent (conn fresh) \<and>
   filter (\<lambda>r. a_note_id r = ''note_0001'') (analysis (conn (import_note id fresh note_summary))) =
     [\<lparr>a_note_id = ''note_0001'', a_summary = ''Groceries for the week'', a_plain_text_sample = []\<rparr>] \<and>
   accepts (conn left_analysis) note_summary \<and>
   ''note_0001'' \<in> a_note_id ` set (analysis (conn left_analysis)) \<and>
   distinct (map a_note_id (analysis (conn left_analysis))) \<and>
   analysis (conn (import_note id left_analysis note_summary)) =
     [\<lparr>a_note_id = ''note_0001'', a_summary = ''An older summary'', a_plain_text_sample = []\<rparr>]"
proof -
  have h1: "accepts (conn fresh) note_summary"
    by code_simp
  have h2: "nd_note_id note_summary = Some ''note_0001''"
    by code_simp
  have h3: "fk_consistent (conn fresh)"
    by code_simp
  have s: "get_or (an_summary (payload note_summary)) [] = ''Groceries for the week''"
    by code_simp
  have t: "get_or (an_plain_text (payload note_summary)) [] = []"
    by code_simp
  have g1: "accepts (conn left_analysis) note_summary"
    by code_simp
  have g2: "analysis (conn left_analysis) =
     [\<lparr>a_note_id = ''note_0001'', a_summary = ''An older summary'', a_plain_text_sample = []\<rparr>]"
    by (simp add: left_analysis_def fresh_def connect_def new_database_def)
  from analysis_row_iff_summary_or_text [OF h1 h2, of id] h3
  have a: "filter (\<lambda>r. a_note_id r = ''note_0001'') (analysis (conn (import_note id fresh note_summary))) =
     [\<lparr>a_note_id = ''note_0001'', a_summary = ''Groceries for the week'', a_plain_text_sample = []\<rparr>]"
    by (simp add: s t)
  from analysis_row_iff_summary_or_text [OF g1 h2, of id]
  have b: "analysis (conn (import_note id left_analysis note_summary)) =
     [\<lparr>a_note_id = ''note_0001'', a_summary = ''An older summary'', a_plain_text_sample = []\<rparr>]"
    by (simp add: g2)
  from h1 h2 h3 a g1 b show ?thesis
    by (simp add: g2)
qed

section \<open>Records without an external id\<close>



section \<open>Importing the same records again\<close>

lemma accepts_note_id: "accepts db nd \<Longrightarrow> \<exists>nid. nd_note_id nd = Some nid"
  by (cases "nd_note_id nd") (simp_all add: accepts_def)

lemma import_note_notes_tbl:
  "notes_tbl (conn (import_note feed s nd)) =
     (if accepts (conn s) nd then notes_tbl (conn s) @ [note_values feed (the (nd_note_id nd)) nd]
      else notes_tbl (conn s))"
proof (cases "accepts (conn s) nd")
  case True
  then obtain nid where nid: "nd_note_id nd = Some nid"
    using accepts_note_id by blast
  from import_note_accepted_notes [OF True nid] True nid show ?thesis by simp
next
  case False
  then show ?thesis by (simp add: import_note_rejected)
qed

lemma rejected_stays_rejected:
  assumes "\<not> accepts (conn s) x"
  shows "\<not> accepts (conn (import_note feed s nd)) x"
  using assms by (auto simp add: accepts_def import_note_notes_tbl split: option.splits)

lemma rejected_once_imported: "\<not> accepts (conn (import_note feed s nd)) nd"
proof (cases "accepts (conn s) nd")
  case True
  then obtain nid where nid: "nd_note_id nd = Some nid"
    using accepts_note_id by blast
  have "n_note_id (note_values feed nid nd) = nid"
    by (simp add: note_values_def Let_def)
  then show ?thesis
    using True nid by (simp add: accepts_def import_note_notes_tbl)
next
  case False
  then show ?thesis by (rule rejected_stays_rejected)
qed

lemma import_all_rejected_stays:
  "\<not> accepts (conn s) x \<Longrightarrow> \<not> accepts (conn (import_all feed s nds)) x"
proof (induction nds arbitrary: s)
  case Nil
  then show ?case by (simp add: import_all_def)
next
  case (Cons nd nds)
  from Cons.IH [OF rejected_stays_rejected [OF Cons.prems]] show ?case
    by (simp add: import_all_def)
qed

lemma import_all_rejects_its_records:
  "x \<in> set nds \<Longrightarrow> \<not> accepts (conn (import_all feed s nds)) x"
proof (induction nds arbitrary: s)
  case Nil
  then show ?case by simp
next
  case (Cons nd nds)
  show ?case
  proof (cases "x = nd")
    case True
    from import_all_rejected_stays [OF rejected_once_imported, of feed feed s nd nds] True
    show ?thesis by (simp add: import_all_def)
  next
    case False
    with Cons.prems have "x \<in> set nds" by simp
    from Cons.IH [OF this] show ?thesis by (simp add: import_all_def)
  qed
qed

lemma import_note_rejected_step:
  assumes "\<not> accepts (conn s) nd"
  shows "\<exists>msg. import_note feed s nd = add_error msg s"
proof (cases "nd_note_id nd")
  case None
  then have "import_note feed s nd = add_error ''Missing note_id in note data'' s"
    by (simp add: import_note_def)
  then show ?thesis by blast
next
  case (Some nid)
  have nv: "n_note_id (note_values feed nid nd) = nid"
       "n_coredata_id (note_values feed nid nd) = Some (get_or (nd_id nd) [])"
       "n_original_index (note_values feed nid nd) = get_or (nd_original_index nd) 0"
    by (simp_all add: note_values_def Let_def)
  show ?thesis
  proof (cases "nid = []")
    case True
    with Some have "import_note feed s nd = add_error ''Missing note_id in note data'' s"
      by (simp add: import_note_def)
    then show ?thesis by blast
  next
    case False
    have "\<exists>e. insert_note (conn s) (note_values feed nid nd) = Inl e"
      using assms Some False by (auto simp add: insert_note_def accepts_def nv)
    then show ?thesis
      using Some False by (auto simp add: import_note_def)
  qed
qed

lemma import_all_of_rejected:
  "\<forall>x\<in>set nds. \<not> accepts (conn s) x \<Longrightarrow>
   \<exists>msgs. length msgs = length nds \<and>
          import_all feed s nds = s\<lparr>stats := (stats s)\<lparr>errors := errors (stats s) @ msgs\<rparr>\<rparr>"
proof (induction nds arbitrary: s)
  case Nil
  then show ?case by (simp add: import_all_def)
next
  case (Cons nd nds)
  from Cons.prems have "\<not> accepts (conn s) nd" by simp
  from import_note_rejected_step [OF this] obtain msg where
    step: "import_note feed s nd = add_error msg s" by blast
  have "\<forall>x\<in>set nds. \<not> accepts (conn (add_error msg s)) x"
    using Cons.prems by (simp add: add_error_def)
  from Cons.IH [OF this] obtain msgs where
    msgs: "length msgs = length nds"
      "import_all feed (add_error msg s) nds =
         (add_error msg s)\<lparr>stats := (stats (add_error msg s))\<lparr>errors :=
            errors (stats (add_error msg s)) @ msgs\<rparr>\<rparr>"
    by blast
  have "length (msg # msgs) = length (nd # nds)"
    using msgs(1) by simp
  moreover have "import_all feed s (nd # nds) =
      s\<lparr>stats := (stats s)\<lparr>errors := errors (stats s) @ (msg # msgs)\<rparr>\<rparr>"
    using msgs(2) by (simp add: import_all_def step add_error_def)
  ultimately show ?case by blast
qed

text \<open>
  C6, as stated, in its second part: a store holds the note row of a record and lacks
  its link row; importing the record again should bring the store to the rows of a clean
  import, which has the link row. The link table stays empty: the note row is refused
  and the child loops never run.
\<close>

theorem reimport_does_not_restore_children:
  "extracted_links (conn (import_note id fresh note_linked)) =
     [\<lparr>l_note_id = ''note_0001'', l_url = ''https://a.com'', l_link_type = None\<rparr>] \<and>
   notes_tbl (conn partial_import) = notes_tbl (conn (import_note id fresh note_linked)) \<and>
   extracted_links (conn partial_import) = [] \<and>
   extracted_links (conn (import_note id partial_import note_linked)) = []"
proof -
  have a: "extracted_links (conn (import_note id fresh note_linked)) =
     [\<lparr>l_note_id = ''note_0001'', l_url = ''https://a.com'', l_link_type = None\<rparr>]"
    by code_simp
  have b: "notes_tbl (conn partial_import) = notes_tbl (conn (import_note id fresh note_linked))"
    by (simp add: partial_import_def Let_def)
  have c: "extracted_links (conn partial_import) = []"
    by (simp add: partial_import_def Let_def)
  have d: "extracted_links (conn (import_note id partial_import note_linked)) = []"
    by code_simp
  from a b c d show ?thesis by blast
qed

text \<open>
  C6, amended. After a pass over a list of records the store refuses each of them, so a
  second pass over the same list changes no table (the numbers of link, image and
  category rows stay as they are) and no counter, and appends one error entry per
  record. Importing a record whose note row is stored leaves the store as it is: child
  rows that are missing are not added and rows that are there are not duplicated.
\<close>

theorem second_pass_changes_nothing:
  "(\<forall>x\<in>set nds. \<not> accepts (conn (import_all feed s nds)) x) \<and>
   (\<exists>msgs. length msgs = length nds \<and>
      import_all feed (import_all feed s nds) nds =
        (import_all feed s nds)\<lparr>stats := (stats (import_all feed s nds))\<lparr>errors :=
           errors (stats (import_all feed s nds)) @ msgs\<rparr>\<rparr>) \<and>
   length (extracted_links (conn (import_all feed (import_all feed s nds) nds))) =
     length (extracted_links (conn (import_all feed s nds))) \<and>
   length (extracted_images (conn (import_all feed (import_all feed s nds) nds))) =
     length (extracted_images (conn (import_all feed s nds))) \<and>
   length (note_categories (conn (import_all feed (import_all feed s nds) nds))) =
     length (note_categories (conn (import_all feed s nds))) \<and>
   (nd_note_id nd = Some nid \<and> parent_exists (conn s) nid \<longrightarrow>
      conn (import_note feed s nd) = conn s)"
proof -
  have all: "\<forall>x\<in>set nds. \<not> accepts (conn (import_all feed s nds)) x"
    by (simp add: import_all_rejects_its_records)
  from import_all_of_rejected [OF all] obtain msgs where
    msgs: "length msgs = length nds"
      "import_all feed (import_all feed s nds) nds =
        (import_all feed s nds)\<lparr>stats := (stats (import_all feed s nds))\<lparr>errors :=
           errors (stats (import_all feed s nds)) @ msgs\<rparr>\<rparr>"
    by blast
  have pass: "conn (import_all feed (import_all feed s nds) nds) = conn (import_all feed s nds)"
    by (simp add: msgs(2))
  have again: "nd_note_id nd = Some nid \<and> parent_exists (conn s) nid \<longrightarrow>
      conn (import_note feed s nd) = conn s"
  proof
    assume h: "nd_note_id nd = Some nid \<and> parent_exists (conn s) nid"
    then have "\<not> accepts (conn s) nd"
      by (simp add: accepts_def parent_exists_def)
    then show "conn (import_note feed s nd) = conn s"
      by (rule import_note_rejected)
  qed
  have ex: "\<exists>msgs. length msgs = length nds \<and>
      import_all feed (import_all feed s nds) nds =
        (import_all feed s nds)\<lparr>stats := (stats (import_all feed s nds))\<lparr>errors :=
           errors (stats (import_all feed s nds)) @ msgs\<rparr>\<rparr>"
    using msgs by blast
  have links: "length (extracted_links (conn (import_all feed (import_all feed s nds) nds))) =
     length (extracted_links (conn (import_all feed s nds)))"
    by (simp only: pass)
  have images: "length (extracted_images (conn (import_all feed (import_all feed s nds) nds))) =
     length (extracted_images (conn (import_all feed s nds)))"
    by (simp only: pass)
  have categories: "length (note_categories (conn (import_all feed (import_all feed s nds) nds))) =
     length (note_categories (conn (import_all feed s nds)))"
    by (simp only: pass)
  from all ex links images categories again show ?thesis
    by (intro conjI)
qed

theorem second_pass_changes_nothing_witness:
  "import_all id fresh [note_repeats] = stored_repeats \<and>
   conn (import_all id (import_all id fresh [note_repeats]) [note_repeats]) = conn stored_repeats \<and>
   length (errors (stats (import_all id (import_all id fresh [note_repeats]) [note_repeats]))) = 1 \<and>
   nd_note_id note_linked = Some ''note_0001'' \<and> parent_exists (conn partial_import) ''note_0001'' \<and>
   conn (import_note id partial_import note_linked) = conn partial_import"
proof -
  have first: "import_all id fresh [note_repeats] = stored_repeats"
    by (simp add: import_all_def import_note_repeats)
  have h1: "nd_note_id note_linked = Some ''note_0001''"
    by (simp add: note_linked_def note_with_id_def)
  have h2: "parent_exists (conn partial_import) ''note_0001''"
    by code_simp
  have e: "errors (stats stored_repeats) = []"
    by (simp add: stored_repeats_def)
  from second_pass_changes_nothing [of "[note_repeats]" id fresh note_linked "''note_0001''"]
  obtain msgs where "length msgs = 1"
    and "import_all id stored_repeats [note_repeats] =
           stored_repeats\<lparr>stats := (stats stored_repeats)\<lparr>errors := errors (stats stored_repeats) @ msgs\<rparr>\<rparr>"
    by (auto simp add: first)
  then have a: "conn (import_all id (import_all id fresh [note_repeats]) [note_repeats]) = conn stored_repeats"
    and a': "length (errors (stats (import_all id (import_all id fresh [note_repeats]) [note_repeats]))) = 1"
    by (simp_all add: first e)
  from second_pass_changes_nothing [of "[]" id partial_import note_linked "''note_0001''"] h1 h2
  have b: "conn (import_note id partial_import note_linked) = conn partial_import"
    by simp
  from first a a' b h1 h2 show ?thesis by simp
qed

section \<open>Deleting a note\<close>

lemma link_rows_note_id: "r \<in> set (link_rows nid nd) \<Longrightarrow> l_note_id r = nid"
  by (auto simp add: link_rows_def flat_link_rows_def typed_link_rows_def)

lemma image_values_note_id: "i_note_id (image_values nid idx img) = nid"
  by (cases img) (simp_all add: Let_def)

lemma image_rows_note_id: "r \<in> set (image_rows nid idx imgs) \<Longrightarrow> i_note_id r = nid"
  by (induction imgs arbitrary: idx) (auto simp add: image_values_note_id split: if_splits)

lemma analysis_rows_note_id: "r \<in> set (analysis_rows nid a) \<Longrightarrow> a_note_id r = nid"
  by (auto simp add: analysis_rows_def split: if_splits)

lemma children_db_fk_consistent:
  assumes "fk_consistent db" and "parent_exists db nid"
  shows "fk_consistent (children_db nid nd db)"
proof -
  have pe: "\<And>x. parent_exists (children_db nid nd db) x = parent_exists db x"
    by (simp add: parent_exists_def children_db_def)
  have links: "\<forall>r \<in> set (extracted_links (children_db nid nd db)). parent_exists db (l_note_id r)"
  proof
    fix r assume "r \<in> set (extracted_links (children_db nid nd db))"
    then have "r \<in> set (extracted_links db) \<or> r \<in> set (link_rows nid nd)"
      using ins_all_set [of link_key "link_rows nid nd" "extracted_links db"]
      by (auto simp add: children_db_def)
    then show "parent_exists db (l_note_id r)"
      using assms link_rows_note_id by (auto simp add: fk_consistent_def)
  qed
  have images: "\<forall>r \<in> set (extracted_images (children_db nid nd db)). parent_exists db (i_note_id r)"
  proof
    fix r assume "r \<in> set (extracted_images (children_db nid nd db))"
    then have "r \<in> set (extracted_images db) \<or>
               r \<in> set (image_rows nid 1 (get_or (ed_images (extracted nd)) []))"
      using ins_all_set [of image_key "image_rows nid 1 (get_or (ed_images (extracted nd)) [])"
                            "extracted_images db"]
      by (auto simp add: children_db_def)
    then show "parent_exists db (i_note_id r)"
      using assms image_rows_note_id by (auto simp add: fk_consistent_def)
  qed
  have categories: "\<forall>r \<in> set (note_categories (children_db nid nd db)). parent_exists db (c_note_id r)"
  proof
    fix r assume "r \<in> set (note_categories (children_db nid nd db))"
    then have "r \<in> set (note_categories db) \<or>
               r \<in> set (category_rows nid (get_or (nd_categories nd) []))"
      using ins_all_set [of category_key "category_rows nid (get_or (nd_categories nd) [])"
                            "note_categories db"]
      by (auto simp add: children_db_def)
    then show "parent_exists db (c_note_id r)"
      using assms by (auto simp add: fk_consistent_def category_rows_def)
  qed
  have analyses: "\<forall>r \<in> set (analysis (children_db nid nd db)). parent_exists db (a_note_id r)"
  proof
    fix r assume "r \<in> set (analysis (children_db nid nd db))"
    then have "r \<in> set (analysis db) \<or> r \<in> set (analysis_rows nid (payload nd))"
      using ins_all_set [of a_note_id "analysis_rows nid (payload nd)" "analysis db"]
      by (auto simp add: children_db_def)
    then show "parent_exists db (a_note_id r)"
      using assms analysis_rows_note_id by (auto simp add: fk_consistent_def)
  qed
  have tasks: "\<forall>r \<in> set (extracted_tasks (children_db nid nd db)). parent_exists db (t_note_id r)"
    using assms by (auto simp add: children_db_def fk_consistent_def task_rows_def)
  have ideas: "\<forall>r \<in> set (extracted_ideas (children_db nid nd db)). parent_exists db (d_note_id r)"
    using assms by (auto simp add: children_db_def fk_consistent_def idea_rows_def)
  have projects: "\<forall>r \<in> set (extracted_projects (children_db nid nd db)). parent_exists db (p_note_id r)"
    using assms by (auto simp add: children_db_def fk_consistent_def project_rows_def)
  from links images categories analyses tasks ideas projects show ?thesis
    unfolding fk_consistent_def [of "children_db nid nd db"] pe by (intro conjI)
qed

lemma fk_consistent_new_note:
  assumes "fk_consistent db"
  shows "fk_consistent (db\<lparr>notes_tbl := notes_tbl db @ [row]\<rparr>)"
  using assms by (simp add: fk_consistent_def parent_exists_def)

lemma import_note_fk_consistent:
  assumes "fk_consistent (conn s)"
  shows "fk_consistent (conn (import_note feed s nd))"
proof (cases "accepts (conn s) nd")
  case True
  then obtain nid where nid: "nd_note_id nd = Some nid"
    using accepts_note_id by blast
  have "n_note_id (note_values feed nid nd) = nid"
    by (simp add: note_values_def Let_def)
  then have pe: "parent_exists ((conn s)\<lparr>notes_tbl := notes_tbl (conn s) @ [note_values feed nid nd]\<rparr>) nid"
    by (simp add: parent_exists_def)
  from children_db_fk_consistent [OF fk_consistent_new_note [OF assms] pe]
  show ?thesis
    by (simp add: import_note_accepted [OF True nid])
next
  case False
  with assms show ?thesis by (simp add: import_note_rejected)
qed

lemma import_note_foreign_keys:
  "foreign_keys (conn (import_note feed s nd)) = foreign_keys (conn s)"
proof (cases "accepts (conn s) nd")
  case True
  then obtain nid where nid: "nd_note_id nd = Some nid"
    using accepts_note_id by blast
  show ?thesis
    by (simp add: import_note_accepted [OF True nid] children_db_def)
next
  case False
  then show ?thesis by (simp add: import_note_rejected)
qed

lemma import_all_fk_consistent:
  "fk_consistent (conn s) \<Longrightarrow> fk_consistent (conn (import_all feed s nds))"
proof (induction nds arbitrary: s)
  case Nil
  then show ?case by (simp add: import_all_def)
next
  case (Cons nd nds)
  from Cons.IH [OF import_note_fk_consistent [OF Cons.prems]] show ?case
    by (simp add: import_all_def)
qed

lemma import_all_foreign_keys:
  "foreign_keys (conn (import_all feed s nds)) = foreign_keys (conn s)"
proof (induction nds arbitrary: s)
  case Nil
  then show ?case by (simp add: import_all_def)
next
  case (Cons nd nds)
  from Cons.IH [of "import_note feed s nd"] show ?case
    by (simp add: import_all_def import_note_foreign_keys)
qed

lemma filter_other_notes:
  "nid \<notin> ref ` set tbl \<Longrightarrow> filter (\<lambda>r. ref r \<noteq> nid) tbl = tbl"
  by (induction tbl) auto

lemma delete_note_result:
  assumes "fk_consistent db" and "foreign_keys db"
  shows "delete_note db nid =
           Inr (db\<lparr>notes_tbl := filter (\<lambda>r. n_note_id r \<noteq> nid) (notes_tbl db),
                   extracted_links := filter (\<lambda>r. l_note_id r \<noteq> nid) (extracted_links db),
                   extracted_images := filter (\<lambda>r. i_note_id r \<noteq> nid) (extracted_images db),
                   analysis := filter (\<lambda>r. a_note_id r \<noteq> nid) (analysis db),
                   extracted_tasks := filter (\<lambda>r. t_note_id r \<noteq> nid) (extracted_tasks db),
                   extracted_ideas := filter (\<lambda>r. d_note_id r \<noteq> nid) (extracted_ideas db),
                   extracted_projects := filter (\<lambda>r. p_note_id r \<noteq> nid) (extracted_projects db),
                   note_categories := filter (\<lambda>r. c_note_id r \<noteq> nid) (note_categories db)\<rparr>)"
proof (cases "parent_exists db nid")
  case True
  with assms(2) show ?thesis
    by (simp add: delete_note_def delete_children_def Let_def)
next
  case False
  with assms(1) have none:
    "nid \<notin> l_note_id ` set (extracted_links db)" "nid \<notin> i_note_id ` set (extracted_images db)"
    "nid \<notin> a_note_id ` set (analysis db)" "nid \<notin> t_note_id ` set (extracted_tasks db)"
    "nid \<notin> d_note_id ` set (extracted_ideas db)" "nid \<notin> p_note_id ` set (extracted_projects db)"
    "nid \<notin> c_note_id ` set (note_categories db)"
    by (auto simp add: fk_consistent_def)
  from False show ?thesis
    by (simp add: delete_note_def Let_def filter_other_notes [OF none(1)]
          filter_other_notes [OF none(2)] filter_other_notes [OF none(3)]
          filter_other_notes [OF none(4)] filter_other_notes [OF none(5)]
          filter_other_notes [OF none(6)] filter_other_notes [OF none(7)])
qed

lemma fk_consistent_after_delete:
  assumes "fk_consistent db"
  shows "fk_consistent (db\<lparr>notes_tbl := filter (\<lambda>r. n_note_id r \<noteq> nid) (notes_tbl db),
                   extracted_links := filter (\<lambda>r. l_note_id r \<noteq> nid) (extracted_links db),
                   extracted_images := filter (\<lambda>r. i_note_id r \<noteq> nid) (extracted_images db),
                   analysis := filter (\<lambda>r. a_note_id r \<noteq> nid) (analysis db),
                   extracted_tasks := filter (\<lambda>r. t_note_id r \<noteq> nid) (extracted_tasks db),
                   extracted_ideas := filter (\<lambda>r. d_note_id r \<noteq> nid) (extracted_ideas db),
                   extracted_projects := filter (\<lambda>r. p_note_id r \<noteq> nid) (extracted_projects db),
                   note_categories := filter (\<lambda>r. c_note_id r \<noteq> nid) (note_categories db)\<rparr>)"
  using assms by (auto simp add: fk_consistent_def parent_exists_def)

text \<open>
  C7. A run connects with foreign keys on, and every child table declares its foreign key
  to \<open>notes\<close> with ON DELETE CASCADE. So on a database file whose child rows all belong
  to stored notes, after any list of imports: enforcement is on, every child row still
  belongs to a stored note, and deleting a note succeeds and removes that note's row and
  exactly its rows in the seven child tables (links, images, categories, analysis, tasks,
  ideas, projects), the rows of the other notes staying; no child row is left without
  its note.
\<close>

theorem delete_note_cascades:
  assumes "fk_consistent db0"
  shows "foreign_keys (conn (import_all feed (connect db0) nds)) \<and>
         fk_consistent (conn (import_all feed (connect db0) nds)) \<and>
         (\<exists>db'. delete_note (conn (import_all feed (connect db0) nds)) nid = Inr db' \<and>
            \<not> parent_exists db' nid \<and>
            notes_tbl db' = filter (\<lambda>r. n_note_id r \<noteq> nid)
                              (notes_tbl (conn (import_all feed (connect db0) nds))) \<and>
            extracted_links db' = filter (\<lambda>r. l_note_id r \<noteq> nid)
                              (extracted_links (conn (import_all feed (connect db0) nds))) \<and>
            extracted_images db' = filter (\<lambda>r. i_note_id r \<noteq> nid)
                              (extracted_images (conn (import_all feed (connect db0) nds))) \<and>
            note_categories db' = filter (\<lambda>r. c_note_id r \<noteq> nid)
                              (note_categories (conn (import_all feed (connect db0) nds))) \<and>
            analysis db' = filter (\<lambda>r. a_note_id r \<noteq> nid)
                              (analysis (conn (import_all feed (connect db0) nds))) \<and>
            extracted_tasks db' = filter (\<lambda>r. t_note_id r \<noteq> nid)
                              (extracted_tasks (conn (import_all feed (connect db0) nds))) \<and>
            extracted_ideas db' = filter (\<lambda>r. d_note_id r \<noteq> nid)
                              (extracted_ideas (conn (import_all feed (connect db0) nds))) \<and>
            extracted_projects db' = filter (\<lambda>r. p_note_id r \<noteq> nid)
                              (extracted_projects (conn (import_all feed (connect db0) nds))) \<and>
            fk_consistent db')"
proof -
  let ?db = "conn (import_all feed (connect db0) nds)"
  have "fk_consistent (conn (connect db0))"
    using assms by (simp add: connect_def fk_consistent_def parent_exists_def)
  then have fk: "fk_consistent ?db"
    by (rule import_all_fk_consistent)
  have on: "foreign_keys ?db"
    by (simp add: import_all_foreign_keys connect_def)
  let ?db' = "?db\<lparr>notes_tbl := filter (\<lambda>r. n_note_id r \<noteq> nid) (notes_tbl ?db),
                   extracted_links := filter (\<lambda>r. l_note_id r \<noteq> nid) (extracted_links ?db),
                   extracted_images := filter (\<lambda>r. i_note_id r \<noteq> nid) (extracted_images ?db),
                   analysis := filter (\<lambda>r. a_note_id r \<noteq> nid) (analysis ?db),
                   extracted_tasks := filter (\<lambda>r. t_note_id r \<noteq> nid) (extracted_tasks ?db),
                   extracted_ideas := filter (\<lambda>r. d_note_id r \<noteq> nid) (extracted_ideas ?db),
                   extracted_projects := filter (\<lambda>r. p_note_id r \<noteq> nid) (extracted_projects ?db),
                   note_categories := filter (\<lambda>r. c_note_id r \<noteq> nid) (note_categories ?db)\<rparr>"
  have del: "delete_note ?db nid = Inr ?db'"
    using fk on by (rule delete_note_result)
  have gone: "\<not> parent_exists ?db' nid"
    by (auto simp add: parent_exists_def)
  have fk': "fk_consistent ?db'"
    using fk by (rule fk_consistent_after_delete)
  have "delete_note ?db nid = Inr ?db' \<and> \<not> parent_exists ?db' nid \<and>
        notes_tbl ?db' = filter (\<lambda>r. n_note_id r \<noteq> nid) (notes_tbl ?db) \<and>
        extracted_links ?db' = filter (\<lambda>r. l_note_id r \<noteq> nid) (extracted_links ?db) \<and>
        extracted_images ?db' = filter (\<lambda>r. i_note_id r \<noteq> nid) (extracted_images ?db) \<and>
        note_categories ?db' = filter (\<lambda>r. c_note_id r \<noteq> nid) (note_categories ?db) \<and>
        analysis ?db' = filter (\<lambda>r. a_note_id r \<noteq> nid) (analysis ?db) \<and>
        extracted_tasks ?db' = filter (\<lambda>r. t_note_id r \<noteq> nid) (extracted_tasks ?db) \<and>
        extracted_ideas ?db' = filter (\<lambda>r. d_note_id r \<noteq> nid) (extracted_ideas ?db) \<and>
        extracted_projects ?db' = filter (\<lambda>r. p_note_id r \<noteq> nid) (extracted_projects ?db) \<and>
        fk_consistent ?db'"
    using del gone fk' by simp
  then have ex: "\<exists>db'. delete_note ?db nid = Inr db' \<and> \<not> parent_exists db' nid \<and>
        notes_tbl db' = filter (\<lambda>r. n_note_id r \<noteq> nid) (notes_tbl ?db) \<and>
        extracted_links db' = filter (\<lambda>r. l_note_id r \<noteq> nid) (extracted_links ?db) \<and>
        extracted_images db' = filter (\<lambda>r. i_note_id r \<noteq> nid) (extracted_images ?db) \<and>
        note_categories db' = filter (\<lambda>r. c_note_id r \<noteq> nid) (note_categories ?db) \<and>
        analysis db' = filter (\<lambda>r. a_note_id r \<noteq> nid) (analysis ?db) \<and>
        extracted_tasks db' = filter (\<lambda>r. t_note_id r \<noteq> nid) (extracted_tasks ?db) \<and>
        extracted_ideas db' = filter (\<lambda>r. d_note_id r \<noteq> nid) (extracted_ideas ?db) \<and>
        extracted_projects db' = filter (\<lambda>r. p_note_id r \<noteq> nid) (extracted_projects ?db) \<and>
        fk_consistent db'"
    by (rule exI)
  from on fk ex show ?thesis by (intro conjI)
qed

theorem delete_note_cascades_witness:
  "fk_consistent new_database \<and>
   conn (import_all id (connect new_database) [note_repeats]) = conn stored_repeats \<and>
   (\<exists>db'. delete_note (conn stored_repeats) ''note_0001'' = Inr db' \<and>
      notes_tbl db' = [] \<and> extracted_links db' = [] \<and> extracted_images db' = [] \<and>
      note_categories db' = [])"
proof -
  have h: "fk_consistent new_database"
    by (simp add: fk_consistent_def new_database_def)
  have run: "import_all id (connect new_database) [note_repeats] = stored_repeats"
    using import_note_repeats by (simp add: import_all_def fresh_def)
  from delete_note_cascades [OF h, of id "[note_repeats]" "''note_0001''"]
  obtain db' where "delete_note (conn stored_repeats) ''note_0001'' = Inr db'"
    and "notes_tbl db' = filter (\<lambda>r. n_note_id r \<noteq> ''note_0001'') (notes_tbl (conn stored_repeats))"
    and "extracted_links db' =
           filter (\<lambda>r. l_note_id r \<noteq> ''note_0001'') (extracted_links (conn stored_repeats))"
    and "extracted_images db' =
           filter (\<lambda>r. i_note_id r \<noteq> ''note_0001'') (extracted_images (conn stored_repeats))"
    and "note_categories db' =
           filter (\<lambda>r. c_note_id r \<noteq> ''note_0001'') (note_categories (conn stored_repeats))"
    unfolding run by blast
  then have "delete_note (conn stored_repeats) ''note_0001'' = Inr db' \<and>
      notes_tbl db' = [] \<and> extracted_links db' = [] \<and> extracted_images db' = [] \<and>
      note_categories db' = []"
    by (simp add: stored_repeats_def)
  then have "\<exists>db'. delete_note (conn stored_repeats) ''note_0001'' = Inr db' \<and>
      notes_tbl db' = [] \<and> extracted_links db' = [] \<and> extracted_images db' = [] \<and>
      note_categories db' = []"
    by (rule exI)
  with h run show ?thesis by simp
qed

section \<open>The date ranges of the statistics report\<close>

lemma sql_min_parsed:
  "sql_min vs = (if parsed vs = [] then None else Some (Min (set (parsed vs))))"
proof (induction vs rule: sql_min.induct)
  case 1
  show ?case by (simp add: parsed_def)
next
  case (2 vs)
  then show ?case by (simp add: parsed_def)
next
  case (3 v vs)
  have p: "parsed (Some v # vs) = v # parsed vs"
    by (simp add: parsed_def)
  show ?case
  proof (cases "parsed vs = []")
    case True
    with 3 show ?thesis by (simp add: p)
  next
    case False
    with 3 show ?thesis by (simp add: p)
  qed
qed

lemma sql_max_parsed:
  "sql_max vs = (if parsed vs = [] then None else Some (Max (set (parsed vs))))"
proof (induction vs rule: sql_max.induct)
  case 1
  show ?case by (simp add: parsed_def)
next
  case (2 vs)
  then show ?case by (simp add: parsed_def)
next
  case (3 v vs)
  have p: "parsed (Some v # vs) = v # parsed vs"
    by (simp add: parsed_def)
  show ?case
  proof (cases "parsed vs = []")
    case True
    with 3 show ?thesis by (simp add: p)
  next
    case False
    with 3 show ?thesis by (simp add: p)
  qed
qed

lemma parsed_of_not_null:
  "parsed (map f (filter (\<lambda>r. f r \<noteq> None) rows)) = parsed (map f rows)"
  by (induction rows) (simp_all add: parsed_def)

text \<open>
  C2, as the specification words it, does not hold. The query has one
  \<open>WHERE created_datetime IS NOT NULL\<close> for all four aggregates. After importing a note
  whose created date does not parse and whose modified date is 2020-01-01, and a second
  note with both dates parsed, the report gives 2025-11-09 08:00:00 as the earliest
  modified timestamp, while the earliest among the notes whose modified date parsed is
  2020-01-01 00:00:00.
\<close>

theorem modified_range_skips_unparsed_created:
  "map n_created_datetime (notes_tbl (conn dated_run)) = [None, Some (2025, 11, 8, 21, 59, 6)] \<and>
   map n_modified_datetime (notes_tbl (conn dated_run)) =
     [Some (2020, 1, 1, 0, 0, 0), Some (2025, 11, 9, 8, 0, 0)] \<and>
   earliest_modified (generate_date_ranges (conn dated_run)) = Some (2025, 11, 9, 8, 0, 0) \<and>
   earliest_modified (spec_date_ranges (conn dated_run)) = Some (2020, 1, 1, 0, 0, 0)"
proof -
  have a: "map n_created_datetime (notes_tbl (conn dated_run)) = [None, Some (2025, 11, 8, 21, 59, 6)]"
    by code_simp
  have b: "map n_modified_datetime (notes_tbl (conn dated_run)) =
     [Some (2020, 1, 1, 0, 0, 0), Some (2025, 11, 9, 8, 0, 0)]"
    by code_simp
  have c: "earliest_modified (generate_date_ranges (conn dated_run)) = Some (2025, 11, 9, 8, 0, 0)"
    by code_simp
  have d: "earliest_modified (spec_date_ranges (conn dated_run)) = Some (2020, 1, 1, 0, 0, 0)"
    by code_simp
  from a b c d show ?thesis by (intro conjI)
qed

text \<open>
  C2, amended. The earliest and latest created timestamps are the least and greatest
  among all notes whose created date parsed. The earliest and latest modified
  timestamps are the least and greatest modified date among the notes whose created
  date parsed and whose modified date parsed too: a note with a null created date is
  left out of both ranges. A null is skipped and never replaced by a value; a range
  with no value to draw from is null.
\<close>

theorem date_ranges_over_created_notes:
  "generate_date_ranges db =
     (let cs = parsed (map n_created_datetime (notes_tbl db));
          ms = parsed (map n_modified_datetime
                 (filter (\<lambda>r. n_created_datetime r \<noteq> None) (notes_tbl db)))
      in \<lparr>earliest_created = (if cs = [] then None else Some (Min (set cs))),
          latest_created = (if cs = [] then None else Some (Max (set cs))),
          earliest_modified = (if ms = [] then None else Some (Min (set ms))),
          latest_modified = (if ms = [] then None else Some (Max (set ms)))\<rparr>)"
proof -
  have c: "parsed (map n_created_datetime
             (filter (\<lambda>r. n_created_datetime r \<noteq> None) (notes_tbl db))) =
           parsed (map n_created_datetime (notes_tbl db))"
    by (rule parsed_of_not_null)
  show ?thesis
    unfolding generate_date_ranges_def Let_def sql_min_parsed sql_max_parsed c
    by (rule refl)
qed

theorem date_ranges_over_created_notes_witness:
  "generate_date_ranges (conn dated_run) =
     \<lparr>earliest_created = Some (2025, 11, 8, 21, 59, 6),
      latest_created = Some (2025, 11, 8, 21, 59, 6),
      earliest_modified = Some (2025, 11, 9, 8, 0, 0),
      latest_modified = Some (2025, 11, 9, 8, 0, 0)\<rparr>"
proof -
  have rhs: "(let cs = parsed (map n_created_datetime (notes_tbl (conn dated_run)));
          ms = parsed (map n_modified_datetime
                 (filter (\<lambda>r. n_created_datetime r \<noteq> None) (notes_tbl (conn dated_run))))
      in \<lparr>earliest_created = (if cs = [] then None else Some (Min (set cs))),
          latest_created = (if cs = [] then None else Some (Max (set cs))),
          earliest_modified = (if ms = [] then None else Some (Min (set ms))),
          latest_modified = (if ms = [] then None else Some (Max (set ms)))\<rparr>) =
     \<lparr>earliest_created = Some (2025, 11, 8, 21, 59, 6),
      latest_created = Some (2025, 11, 8, 21, 59, 6),
      earliest_modified = Some (2025, 11, 9, 8, 0, 0),
      latest_modified = Some (2025, 11, 9, 8, 0, 0)\<rparr>"
    by code_simp
  from date_ranges_over_created_notes [of "conn dated_run"] rhs show ?thesis
    by (simp only:)
qed

end
